theory Spec2Isabelle
  imports Main
begin

text \<open>
  The roster server \<open>backend/server.js\<close> (Express on PostgreSQL, lines 1 to 381) and the
  reconciliation it does: the report of a month, the status map of a month, the roster
  of a date, the batch upsert and the creation of a nurse. The endpoints are functions of
  the request and of the store; the store is a record of the three tables. HTTP routing,
  the worksheet's styling and its serialisation are left out.
\<close>

section \<open>JavaScript strings and numbers used by the server\<close>

text \<open>
  Strings are ASCII character lists. A JavaScript number that is used as a count, a day of
  the month or a key of an object is an \<open>int\<close>; \<open>NaN\<close> is \<open>None\<close>.
\<close>

definition is_ws :: "char \<Rightarrow> bool" where
  "is_ws c = (c \<in> set [CHR 0x09, CHR 0x0A, CHR 0x0B, CHR 0x0C, CHR 0x0D, CHR '' ''])"

definition is_digit :: "char \<Rightarrow> bool" where
  "is_digit c = (c \<in> set ''0123456789'')"

definition digit_val :: "char \<Rightarrow> int" where
  "digit_val c = int (of_char c) - 48"

definition digits_value :: "string \<Rightarrow> int" where
  "digits_value ds = foldl (\<lambda>acc c. 10 * acc + digit_val c) 0 ds"

text \<open>\<open>s.split(c)\<close> for a one-character separator: never an empty array.\<close>

fun js_split :: "char \<Rightarrow> string \<Rightarrow> string list" where
  "js_split c [] = [[]]"
| "js_split c (x # xs) =
     (if x = c then [] # js_split c xs
      else (case js_split c xs of
              [] \<Rightarrow> [[x]]
            | y # ys \<Rightarrow> (x # y) # ys))"

text \<open>\<open>xs[i]\<close> on an array: \<open>None\<close> is \<open>undefined\<close>.\<close>

definition js_index :: "'a list \<Rightarrow> nat \<Rightarrow> 'a option" where
  "js_index xs i = (if i < length xs then Some (xs ! i) else None)"

text \<open>
  \<open>parseInt(x, 10)\<close>. The argument is first turned into a string (\<open>undefined\<close> becomes
  the text "undefined"); leading white space is dropped, one sign is read, and the longest
  run of decimal digits is the value. No digit gives \<open>NaN\<close>.
\<close>

definition js_parseInt :: "string option \<Rightarrow> int option" where
  "js_parseInt x =
     (let str = (case x of None \<Rightarrow> ''undefined'' | Some s \<Rightarrow> s);
          s = dropWhile is_ws str;
          sgn = (case s of [] \<Rightarrow> 1 | c # cs \<Rightarrow> if c = CHR ''-'' then - 1 else (1 :: int));
          r = (case s of [] \<Rightarrow> []
               | c # cs \<Rightarrow> if c = CHR ''-'' \<or> c = CHR ''+'' then cs else s);
          ds = takeWhile is_digit r
      in if ds = [] then None else Some (sgn * digits_value ds))"

text \<open>\<open>n.toString()\<close> for a number that is a natural number.\<close>

definition digit_char :: "int \<Rightarrow> char" where
  "digit_char d = char_of (48 + nat d)"

function show_int :: "int \<Rightarrow> string" where
  "show_int n = (if n < 10 then [digit_char n] else show_int (n div 10) @ [digit_char (n mod 10)])"
  by pat_completeness auto
termination
  by (relation "measure nat") auto

subsection \<open>Double arithmetic of the deviation percentage\<close>

text \<open>
  \<open>(totalDeviations / totalPlannedShifts) * 100\<close> is computed on IEEE 754 doubles. A
  finite double that is not negative is carried as a pair \<open>(m, e)\<close> that stands for
  \<open>m * 2 ^ e\<close>. Each operation rounds the exact result to 53 significant bits, ties to the
  even mantissa. The quotients and products of the report lie between \<open>2 ^ - 5\<close> and
  \<open>100\<close>, or are zero, so the exponent range of a double is never left.
\<close>

type_synonym dbl = "int \<times> int"

function bitlen :: "int \<Rightarrow> int" where
  "bitlen n = (if n \<le> 0 then 0 else 1 + bitlen (n div 2))"
  by pat_completeness auto
termination
  by (relation "measure nat") auto

definition pow2 :: "int \<Rightarrow> int" where
  "pow2 k = 2 ^ nat k"

definition round_half_even :: "int \<Rightarrow> int \<Rightarrow> int" where
  "round_half_even a b =
     (let q = a div b; r = a mod b
      in if 2 * r < b then q
         else if b < 2 * r then q + 1
         else if even q then q else q + 1)"

text \<open>The double nearest to \<open>(a / b) * 2 ^ s\<close>, for \<open>0 \<le> a\<close> and \<open>0 < b\<close>.\<close>

definition nearest_double :: "int \<Rightarrow> int \<Rightarrow> int \<Rightarrow> dbl" where
  "nearest_double a b s =
     (if a = 0 then (0, 0)
      else
        let d = bitlen a - bitlen b;
            k = (if (if 0 \<le> d then b * pow2 d \<le> a else b \<le> a * pow2 (- d)) then d else d - 1);
            e = k - 52;
            m = (if 0 \<le> e then round_half_even a (b * pow2 e)
                 else round_half_even (a * pow2 (- e)) b)
        in (m, e + s))"

definition dbl_of_int :: "int \<Rightarrow> dbl" where
  "dbl_of_int n = nearest_double n 1 0"

definition dbl_div :: "dbl \<Rightarrow> dbl \<Rightarrow> dbl" where
  "dbl_div x y = nearest_double (fst x) (fst y) (snd x - snd y)"

definition dbl_mul :: "dbl \<Rightarrow> dbl \<Rightarrow> dbl" where
  "dbl_mul x y = nearest_double (fst x * fst y) 1 (snd x + snd y)"

text \<open>
  \<open>x.toFixed(1)\<close> for \<open>0 \<le> x < 10 ^ 21\<close>: \<open>n\<close> is the integer for which \<open>n / 10 - x\<close> is
  closest to zero, the larger one of two; its digits, padded to two, get a point before the
  last one.
\<close>

definition toFixed1 :: "dbl \<Rightarrow> string" where
  "toFixed1 x =
     (let m = fst x; e = snd x;
          n = (if 0 \<le> e then (20 * m * pow2 e + 1) div 2
               else (20 * m + pow2 (- e)) div (2 * pow2 (- e)));
          ds = (if n = 0 then ''0'' else show_int n);
          ps = (if length ds \<le> 1 then replicate (2 - length ds) CHR ''0'' @ ds else ds)
      in take (length ps - 1) ps @ ''.'' @ drop (length ps - 1) ps)"

section \<open>The report builder (GET /api/report-actual)\<close>

datatype variant = Planned | Actual

datatype js_error = TypeError

record nurse =
  nurse_id :: int
  full_name :: string
  group_id :: int

text \<open>
  A row of Roster_Planned or Roster_Actual as the query returns it. \<open>nurse_id\<close>,
  \<open>shift_code\<close> and \<open>ward\<close> may be NULL (\<open>None\<close>); \<open>date\<close> is TEXT NOT NULL. The serial
  keys \<open>plan_id\<close> and \<open>actual_id\<close> are read by nothing and are left out.
\<close>

record roster_row =
  row_nurse_id :: "int option"
  date :: string
  shift_code :: "string option"
  ward :: "string option"

record cell =
  planned :: "string option"
  actual :: "string option"

record entry =
  nurse_of :: nurse
  shifts :: "int \<rightharpoonup> cell"

type_synonym dataMap = "int \<rightharpoonup> entry"

definition empty_cell :: cell where
  "empty_cell = \<lparr>planned = Some [], actual = Some []\<rparr>"

text \<open>\<open>nurses.forEach((n) => (dataMap[n.nurse_id] = { nurse: n, shifts: {} }))\<close>\<close>

definition init_dataMap :: "nurse list \<Rightarrow> dataMap" where
  "init_dataMap nurses =
     foldl (\<lambda>dm n. dm(nurse_id n \<mapsto> \<lparr>nurse_of = n, shifts = Map.empty\<rparr>)) Map.empty nurses"

text \<open>
  \<open>dataMap[n.nurse_id].shifts[day] = { planned: "", actual: "" }\<close>: a TypeError when the
  nurse has no entry.
\<close>

definition init_cell :: "int \<Rightarrow> dataMap \<Rightarrow> nurse \<Rightarrow> js_error + dataMap" where
  "init_cell day dm n =
     (case dm (nurse_id n) of
        None \<Rightarrow> Inl TypeError
      | Some e \<Rightarrow> Inr (dm(nurse_id n \<mapsto> e\<lparr>shifts := (shifts e)(day \<mapsto> empty_cell)\<rparr>)))"

text \<open>\<open>forEach\<close> with a body that may throw: the first exception ends the loop.\<close>

fun forEach :: "('s \<Rightarrow> 'a \<Rightarrow> js_error + 's) \<Rightarrow> 's \<Rightarrow> 'a list \<Rightarrow> js_error + 's" where
  "forEach f s [] = Inr s"
| "forEach f s (x # xs) = (case f s x of Inl err \<Rightarrow> Inl err | Inr s' \<Rightarrow> forEach f s' xs)"

text \<open>\<open>for (let day = 1; day <= daysInMonth; day++) { nurses.forEach(...) }\<close>\<close>

function init_days :: "int \<Rightarrow> nurse list \<Rightarrow> int \<Rightarrow> dataMap \<Rightarrow> js_error + dataMap" where
  "init_days daysInMonth nurses day dm =
     (if day \<le> daysInMonth then
        (case forEach (init_cell day) dm nurses of
           Inl err \<Rightarrow> Inl err
         | Inr dm' \<Rightarrow> init_days daysInMonth nurses (day + 1) dm')
      else Inr dm)"
  by pat_completeness auto
termination
  by (relation "measure (\<lambda>(daysInMonth, nurses, day, dm). nat (daysInMonth + 1 - day))") auto

text \<open>\<open>dataMap[p.nurse_id]\<close>: a NULL nurse_id is the key "null", which no nurse has.\<close>

definition dataMap_get :: "dataMap \<Rightarrow> int option \<Rightarrow> (int \<times> entry) option" where
  "dataMap_get dm i =
     (case i of
        None \<Rightarrow> None
      | Some k \<Rightarrow> (case dm k of None \<Rightarrow> None | Some e \<Rightarrow> Some (k, e)))"

definition set_code :: "variant \<Rightarrow> string option \<Rightarrow> cell \<Rightarrow> cell" where
  "set_code v code c = (case v of Planned \<Rightarrow> c\<lparr>planned := code\<rparr> | Actual \<Rightarrow> c\<lparr>actual := code\<rparr>)"

text \<open>\<open>parseInt(p.date.split("-")[2], 10)\<close>\<close>

definition day_of_date :: "string \<Rightarrow> int option" where
  "day_of_date d = js_parseInt (js_index (js_split CHR ''-'' d) 2)"

text \<open>
  The body of the \<open>try\<close> block, for a row whose nurse has the entry \<open>e\<close> under key \<open>k\<close>:
  \<open>const day = parseInt(p.date.split("-")[2], 10);
    if (day && dataMap[p.nurse_id].shifts[day]) dataMap[p.nurse_id].shifts[day].planned = p.shift_code;\<close>
  \<open>Inl\<close> would be an exception thrown in the block; \<open>split\<close> on a string and \<open>parseInt\<close>
  throw none, and the assignment is guarded, so the block always ends normally.
\<close>

definition try_fill :: "variant \<Rightarrow> dataMap \<Rightarrow> int \<Rightarrow> entry \<Rightarrow> roster_row \<Rightarrow> js_error + dataMap" where
  "try_fill v dm k e p =
     (case day_of_date (date p) of
        None \<Rightarrow> Inr dm
      | Some day \<Rightarrow>
          (if day \<noteq> 0 then
             (case shifts e day of
                None \<Rightarrow> Inr dm
              | Some c \<Rightarrow> Inr (dm(k \<mapsto> e\<lparr>shifts := (shifts e)(day \<mapsto> set_code v (shift_code p) c)\<rparr>)))
           else Inr dm))"

definition skip_message :: "variant \<Rightarrow> string \<Rightarrow> string" where
  "skip_message v d =
     (case v of Planned \<Rightarrow> ''Skipping bad planned date: '' @ d
              | Actual \<Rightarrow> ''Skipping bad actual date: '' @ d)"

text \<open>
  The body of \<open>planned.forEach\<close> and of \<open>actual.forEach\<close>. The state is the dataMap and the
  lines written by \<open>console.error\<close>.
\<close>

definition fill_row :: "variant \<Rightarrow> dataMap \<times> string list \<Rightarrow> roster_row \<Rightarrow> dataMap \<times> string list" where
  "fill_row v st p =
     (let dm = fst st; log = snd st in
      if date p \<noteq> [] then
        (case dataMap_get dm (row_nurse_id p) of
           None \<Rightarrow> st
         | Some (k, e) \<Rightarrow>
             (case try_fill v dm k e p of
                Inl err \<Rightarrow> (dm, log @ [skip_message v (date p)])
              | Inr dm' \<Rightarrow> (dm', log)))
      else st)"

definition fill_rows :: "variant \<Rightarrow> dataMap \<times> string list \<Rightarrow> roster_row list \<Rightarrow> dataMap \<times> string list" where
  "fill_rows v st rows = foldl (fill_row v) st rows"

subsection \<open>One row of the worksheet per nurse\<close>

definition plannedWorkCodes :: "string list" where
  "plannedWorkCodes = [''A'', ''M'', ''N'', ''G'']"

definition actualLeaveCodes :: "string list" where
  "actualLeaveCodes = [''PL'', ''SL'', ''NH'', ''PH'', ''WO'', ''NO'', ''SO'']"

definition highlightCodes :: "string list" where
  "highlightCodes = [''WO'', ''NO'', ''SO'', ''PL'', ''SL'', ''NH'', ''PH'']"

text \<open>\<open>xs.includes(v)\<close> for a value that is a string or null.\<close>

definition js_includes :: "string list \<Rightarrow> string option \<Rightarrow> bool" where
  "js_includes xs v = (case v of None \<Rightarrow> False | Some s \<Rightarrow> s \<in> set xs)"

text \<open>\<open>shift.actual || shift.planned || ""\<close>: null and the empty string are falsy.\<close>

definition displayCode :: "cell \<Rightarrow> string" where
  "displayCode shift =
     (case actual shift of
        Some (a # as) \<Rightarrow> a # as
      | _ \<Rightarrow> (case planned shift of Some (b # bs) \<Rightarrow> b # bs | _ \<Rightarrow> []))"

text \<open>
  The state of the loop over the days of one nurse: \<open>rowData\<close> (its \<open>day\<close> keys, by day
  number) and the two counters.
\<close>

record row_acc =
  days :: "int \<rightharpoonup> string"
  totalDeviations :: int
  totalPlannedShifts :: int

definition init_acc :: row_acc where
  "init_acc = \<lparr>days = Map.empty, totalDeviations = 0, totalPlannedShifts = 0\<rparr>"

definition day_step :: "cell option \<Rightarrow> int \<Rightarrow> row_acc \<Rightarrow> row_acc" where
  "day_step shift day acc =
     (case shift of
        Some c \<Rightarrow>
          (let plannedWork = js_includes plannedWorkCodes (planned c);
               actualLeave = js_includes actualLeaveCodes (actual c)
           in \<lparr>days = (days acc)(day \<mapsto> displayCode c),
               totalDeviations =
                 (if plannedWork \<and> actualLeave then totalDeviations acc + 1 else totalDeviations acc),
               totalPlannedShifts =
                 (if plannedWork then totalPlannedShifts acc + 1 else totalPlannedShifts acc)\<rparr>)
      | None \<Rightarrow> acc\<lparr>days := (days acc)(day \<mapsto> [])\<rparr>)"

text \<open>
  \<open>for (let day = 1; day <= daysInMonth; day++) { const shift =
  dataMap[nurse.nurse_id].shifts[day]; ... }\<close>: a TypeError when the nurse has no entry.
\<close>

function day_loop :: "dataMap \<Rightarrow> nurse \<Rightarrow> int \<Rightarrow> int \<Rightarrow> row_acc \<Rightarrow> js_error + row_acc" where
  "day_loop dm n daysInMonth day acc =
     (if day \<le> daysInMonth then
        (case dm (nurse_id n) of
           None \<Rightarrow> Inl TypeError
         | Some e \<Rightarrow> day_loop dm n daysInMonth (day + 1) (day_step (shifts e day) day acc))
      else Inr acc)"
  by pat_completeness auto
termination
  by (relation "measure (\<lambda>(dm, n, daysInMonth, day, acc). nat (daysInMonth + 1 - day))") auto

text \<open>
  \<open>deviationPercent.toFixed(1)\<close> followed by the percent sign, where \<open>deviationPercent\<close> is
  \<open>totalPlannedShifts > 0 ? (totalDeviations / totalPlannedShifts) * 100 : 0\<close>.
\<close>

definition deviation_text :: "int \<Rightarrow> int \<Rightarrow> string" where
  "deviation_text devs shifts_planned =
     toFixed1 (if 0 < shifts_planned
               then dbl_mul (dbl_div (dbl_of_int devs) (dbl_of_int shifts_planned)) (dbl_of_int 100)
               else dbl_of_int 0) @ ''%''"

text \<open>
  A row of the worksheet: the blank row of \<open>worksheet.addRow({})\<close>, or a nurse's row with
  the name, the cells of the days 1 to daysInMonth, the deviation cell, and for each day
  cell whether it was given the yellow fill.
\<close>

record data_row =
  name :: string
  day_cells :: "string list"
  deviation :: string
  filled :: "bool list"

datatype sheet_row = Blank | Data data_row

text \<open>The value under the key of day \<open>d\<close>; a key that was never written is an empty cell.\<close>

definition day_value :: "row_acc \<Rightarrow> int \<Rightarrow> string" where
  "day_value acc d = (case days acc d of None \<Rightarrow> [] | Some s \<Rightarrow> s)"

definition make_row :: "nurse \<Rightarrow> int \<Rightarrow> row_acc \<Rightarrow> data_row" where
  "make_row n daysInMonth acc =
     \<lparr>name = full_name n,
      day_cells = map (day_value acc) [1..daysInMonth],
      deviation = deviation_text (totalDeviations acc) (totalPlannedShifts acc),
      filled = map (\<lambda>d. day_value acc d \<in> set highlightCodes) [1..daysInMonth]\<rparr>"

text \<open>
  \<open>let currentGroup = 0; for (const nurse of nurses) { if (nurse.group_id !== currentGroup
  && currentGroup !== 0) worksheet.addRow({}); currentGroup = nurse.group_id; ...
  worksheet.addRow(rowData); }\<close>
\<close>

fun nurse_rows :: "dataMap \<Rightarrow> int \<Rightarrow> int \<Rightarrow> nurse list \<Rightarrow> sheet_row list \<Rightarrow> js_error + sheet_row list" where
  "nurse_rows dm daysInMonth currentGroup [] ws = Inr ws"
| "nurse_rows dm daysInMonth currentGroup (n # ns) ws =
     (let ws1 = (if group_id n \<noteq> currentGroup \<and> currentGroup \<noteq> 0 then ws @ [Blank] else ws)
      in case day_loop dm n daysInMonth 1 init_acc of
           Inl err \<Rightarrow> Inl err
         | Inr acc \<Rightarrow> nurse_rows dm daysInMonth (group_id n) ns (ws1 @ [Data (make_row n daysInMonth acc)]))"

text \<open>The header row: \<open>Staff Name\<close>, the day numbers, \<open>Deviation %\<close>.\<close>

definition columns :: "int \<Rightarrow> string list" where
  "columns daysInMonth = [''Staff Name''] @ map show_int [1..daysInMonth] @ [''Deviation %'']"

record worksheet =
  header :: "string list"
  sheet_rows :: "sheet_row list"

text \<open>
  Lines 255 to 291: the dataMap of a month with \<open>daysInMonth\<close> days, filled from the
  fetched nurses, planned rows and actual rows, and the lines logged; or the exception
  that ends the request.
\<close>

definition fill_dataMap ::
  "int \<Rightarrow> nurse list \<Rightarrow> roster_row list \<Rightarrow> roster_row list \<Rightarrow> js_error + dataMap \<times> string list" where
  "fill_dataMap daysInMonth nurses planned_rows actual_rows =
     (case init_days daysInMonth nurses 1 (init_dataMap nurses) of
        Inl err \<Rightarrow> Inl err
      | Inr dm0 \<Rightarrow> Inr (fill_rows Actual (fill_rows Planned (dm0, []) planned_rows) actual_rows))"

text \<open>
  The report from the fetched nurses (in the order of the query), planned rows and actual
  rows: the worksheet, or the exception that ends the request, and the lines logged.
\<close>

definition build_report ::
  "int \<Rightarrow> nurse list \<Rightarrow> roster_row list \<Rightarrow> roster_row list \<Rightarrow> (js_error + worksheet) \<times> string list" where
  "build_report daysInMonth nurses planned_rows actual_rows =
     (case fill_dataMap daysInMonth nurses planned_rows actual_rows of
        Inl err \<Rightarrow> (Inl err, [])
      | Inr st \<Rightarrow>
          (case nurse_rows (fst st) daysInMonth 0 nurses [] of
             Inl err \<Rightarrow> (Inl err, snd st)
           | Inr ws \<Rightarrow> (Inr \<lparr>header = columns daysInMonth, sheet_rows = ws\<rparr>, snd st)))"

subsection \<open>The number of days of the month\<close>

text \<open>
  \<open>const [year, monthNum] = month.split("-").map(Number);
    const daysInMonth = new Date(year, monthNum, 0).getDate();\<close>
  Day 0 of the month with index \<open>monthNum\<close> is the last day of the month before it.
  \<open>Number\<close> is modelled on nonempty strings of decimal digits, and the month on the form
  the client sends (lines 46-48 and 383-385 of the client): two such strings with a dash
  between them. For every other month, and at the end of the range of \<open>Date\<close>, the result
  is \<open>None\<close>: the report of such a month is not described here.
\<close>

definition js_Number_digits :: "string \<Rightarrow> int option" where
  "js_Number_digits s = (if s \<noteq> [] \<and> list_all is_digit s then Some (digits_value s) else None)"

definition leap_year :: "int \<Rightarrow> bool" where
  "leap_year y = (y mod 4 = 0 \<and> (y mod 100 \<noteq> 0 \<or> y mod 400 = 0))"

definition month_length :: "int \<Rightarrow> int \<Rightarrow> int" where
  "month_length y m =
     (if m = 1 then (if leap_year y then 29 else 28)
      else if m \<in> {3, 5, 8, 10} then 30 else 31)"

definition last_day_before :: "int \<Rightarrow> int \<Rightarrow> int option" where
  "last_day_before year monthNum =
     (let y0 = (if 0 \<le> year \<and> year \<le> 99 then 1900 + year else year);
          ym = y0 + (monthNum - 1) div 12;
          mn = (monthNum - 1) mod 12
      in if ym < 275760 then Some (month_length ym mn) else None)"

definition daysInMonth :: "string \<Rightarrow> int option" where
  "daysInMonth month =
     (case js_split CHR ''-'' month of
        [y, m] \<Rightarrow>
          (case (js_Number_digits y, js_Number_digits m) of
             (Some year, Some monthNum) \<Rightarrow> last_day_before year monthNum
           | _ \<Rightarrow> None)
      | _ \<Rightarrow> None)"

definition buildReport ::
  "string \<Rightarrow> nurse list \<Rightarrow> roster_row list \<Rightarrow> roster_row list \<Rightarrow>
     ((js_error + worksheet) \<times> string list) option" where
  "buildReport month nurses planned_rows actual_rows =
     map_option (\<lambda>d. build_report d nurses planned_rows actual_rows) (daysInMonth month)"

section \<open>The store and the roster endpoints\<close>

text \<open>Values of a JSON request body; numbers are integers.\<close>

datatype jsval = JUndefined | JNull | JBool bool | JNum int | JStr string

fun truthy :: "jsval \<Rightarrow> bool" where
  "truthy JUndefined = False"
| "truthy JNull = False"
| "truthy (JBool b) = b"
| "truthy (JNum n) = (n \<noteq> 0)"
| "truthy (JStr s) = (s \<noteq> [])"

text \<open>The text of an integer, for integers of fewer than 22 digits.\<close>

definition js_number_text :: "int \<Rightarrow> string" where
  "js_number_text n = (if n < 0 then ''-'' @ show_int (- n) else show_int n)"

text \<open>
  A query parameter as the driver sends it: null and undefined are NULL, everything else
  goes as text.
\<close>

fun pg_text :: "jsval \<Rightarrow> string option" where
  "pg_text JUndefined = None"
| "pg_text JNull = None"
| "pg_text (JBool b) = Some (if b then ''true'' else ''false'')"
| "pg_text (JNum n) = Some (js_number_text n)"
| "pg_text (JStr s) = Some s"

datatype pg_error =
    BadInteger string
  | ForeignKeyViolation int
  | NotNullViolation
  | UniqueViolation
  | BadDate string

text \<open>
  The input syntax of an INTEGER column: white space, an optional sign, decimal digits,
  white space; the value must fit 32 bits.
\<close>

definition pg_int4_in :: "string \<Rightarrow> pg_error + int" where
  "pg_int4_in str =
     (let s = dropWhile is_ws str;
          sgn = (case s of [] \<Rightarrow> 1 | c # cs \<Rightarrow> if c = CHR ''-'' then - 1 else (1 :: int));
          r = (case s of [] \<Rightarrow> []
               | c # cs \<Rightarrow> if c = CHR ''-'' \<or> c = CHR ''+'' then cs else s);
          ds = takeWhile is_digit r;
          rest = dropWhile is_digit r;
          v = sgn * digits_value ds
      in if ds \<noteq> [] \<and> list_all is_ws rest \<and> - 2147483648 \<le> v \<and> v \<le> 2147483647
         then Inr v else Inl (BadInteger str))"

definition pg_int4 :: "jsval \<Rightarrow> pg_error + int option" where
  "pg_int4 v =
     (case pg_text v of
        None \<Rightarrow> Inr None
      | Some s \<Rightarrow> (case pg_int4_in s of Inl err \<Rightarrow> Inl err | Inr k \<Rightarrow> Inr (Some k)))"

text \<open>
  The three tables, each in the order of insertion, and the last value of the sequence of
  \<open>Nurses.nurse_id\<close>.
\<close>

record db =
  Nurses :: "nurse list"
  Roster_Planned :: "roster_row list"
  Roster_Actual :: "roster_row list"
  nurse_seq :: int

datatype http_error =
    Http400 string
  | Http500 pg_error
  | Http500_details string pg_error

subsection \<open>POST /api/nurses\<close>

record created =
  new_id :: int
  new_name :: jsval
  new_group :: jsval

text \<open>
  \<open>INSERT INTO Nurses (full_name, group_id) VALUES ($1, $2) RETURNING nurse_id\<close>. The
  sequence advances also when the statement fails on a constraint.
\<close>

definition insert_nurse :: "string option \<Rightarrow> int option \<Rightarrow> db \<Rightarrow> (pg_error + int) \<times> db" where
  "insert_nurse nm grp d =
     (case (nm, grp) of
        (Some s, Some g) \<Rightarrow>
          (let k = nurse_seq d + 1 in
           if k \<in> nurse_id ` set (Nurses d) then (Inl UniqueViolation, d\<lparr>nurse_seq := k\<rparr>)
           else (Inr k,
                 d\<lparr>Nurses := Nurses d @ [\<lparr>nurse_id = k, full_name = s, group_id = g\<rparr>],
                   nurse_seq := k\<rparr>))
      | _ \<Rightarrow> (Inl NotNullViolation, d\<lparr>nurse_seq := nurse_seq d + 1\<rparr>))"

definition post_nurses :: "jsval \<Rightarrow> jsval \<Rightarrow> db \<Rightarrow> (http_error + created) \<times> db" where
  "post_nurses name_v group_v d =
     (if \<not> truthy name_v \<or> \<not> truthy group_v
      then (Inl (Http400 ''Name and group are required''), d)
      else
        (case pg_int4 group_v of
           Inl err \<Rightarrow> (Inl (Http500 err), d)
         | Inr g \<Rightarrow>
             (case insert_nurse (pg_text name_v) g d of
                (Inl err, d') \<Rightarrow> (Inl (Http500 err), d')
              | (Inr k, d') \<Rightarrow> (Inr \<lparr>new_id = k, new_name = name_v, new_group = group_v\<rparr>, d'))))"

subsection \<open>GET /api/roster-status\<close>

text \<open>
  \<open>to_char(date::date, 'YYYY-MM')\<close> is a parameter \<open>tm\<close> of the queries: \<open>None\<close> when the
  text is no date, and the cast raises. A statement whose WHERE clause raises on a row
  fails as a whole.
\<close>

type_synonym month_of = "string \<Rightarrow> string option"

definition select_month :: "month_of \<Rightarrow> roster_row list \<Rightarrow> string \<Rightarrow> pg_error + roster_row list" where
  "select_month tm tbl month =
     (case find (\<lambda>r. tm (date r) = None) tbl of
        Some r \<Rightarrow> Inl (BadDate (date r))
      | None \<Rightarrow> Inr (filter (\<lambda>r. tm (date r) = Some month) tbl))"

text \<open>\<open>SELECT DISTINCT date FROM ... WHERE to_char(date::date, 'YYYY-MM') = $1\<close>\<close>

definition select_distinct_dates :: "month_of \<Rightarrow> roster_row list \<Rightarrow> string \<Rightarrow> pg_error + string list" where
  "select_distinct_dates tm tbl month =
     (case select_month tm tbl month of
        Inl err \<Rightarrow> Inl err
      | Inr rows \<Rightarrow> Inr (remdups (map date rows)))"

record day_status =
  has_planned :: bool
  has_actual :: bool

text \<open>
  The object \<open>status\<close>: its own properties. A property \<open>planned\<close> or \<open>actual\<close> is either
  absent or \<open>true\<close>. Reading \<open>status[k]\<close> also finds the members of \<open>Object.prototype\<close>, which
  are all truthy; writing a property of one of them does not change \<open>status\<close>.
\<close>

type_synonym status_map = "string \<rightharpoonup> day_status"

definition object_prototype_keys :: "string list" where
  "object_prototype_keys =
     [''constructor'', ''__defineGetter__'', ''__defineSetter__'', ''hasOwnProperty'',
      ''__lookupGetter__'', ''__lookupSetter__'', ''isPrototypeOf'', ''propertyIsEnumerable'',
      ''toString'', ''valueOf'', ''__proto__'', ''toLocaleString'']"

definition set_flag :: "variant \<Rightarrow> day_status \<Rightarrow> day_status" where
  "set_flag v s = (case v of Planned \<Rightarrow> s\<lparr>has_planned := True\<rparr> | Actual \<Rightarrow> s\<lparr>has_actual := True\<rparr>)"

text \<open>
  \<open>if (row.date && !status[row.date]) status[row.date] = {};
    if (row.date) status[row.date].planned = true;\<close>
\<close>

definition mark_date :: "variant \<Rightarrow> status_map \<Rightarrow> string \<Rightarrow> status_map" where
  "mark_date v status d =
     (if d = [] then status
      else
        (case status d of
           Some s \<Rightarrow> status(d \<mapsto> set_flag v s)
         | None \<Rightarrow>
             if d \<in> set object_prototype_keys then status
             else status(d \<mapsto> set_flag v \<lparr>has_planned = False, has_actual = False\<rparr>)))"

definition getStatusMap :: "month_of \<Rightarrow> string option \<Rightarrow> db \<Rightarrow> http_error + status_map" where
  "getStatusMap tm month d =
     (case month of
        None \<Rightarrow> Inl (Http400 ''Month query parameter is required'')
      | Some m \<Rightarrow>
          if m = [] then Inl (Http400 ''Month query parameter is required'')
          else
            (case select_distinct_dates tm (Roster_Planned d) m of
               Inl err \<Rightarrow> Inl (Http500 err)
             | Inr plannedDays \<Rightarrow>
                 (case select_distinct_dates tm (Roster_Actual d) m of
                    Inl err \<Rightarrow> Inl (Http500 err)
                  | Inr actualDays \<Rightarrow>
                      Inr (foldl (mark_date Actual)
                             (foldl (mark_date Planned) Map.empty plannedDays) actualDays))))"

text \<open>
  The months of the dates written as \<open>YYYY-MM-DD\<close>: the least that the parameter \<open>tm\<close>
  accepts in PostgreSQL, used where a concrete store is needed.
\<close>

definition iso_month :: month_of where
  "iso_month s =
     (case js_split CHR ''-'' s of
        [y, m, d] \<Rightarrow>
          (if length y = 4 \<and> length m = 2 \<and> length d = 2 \<and> list_all is_digit (y @ m @ d)
              \<and> 1 \<le> digits_value y \<and> 1 \<le> digits_value m \<and> digits_value m \<le> 12
              \<and> 1 \<le> digits_value d
              \<and> digits_value d \<le> month_length (digits_value y) (digits_value m - 1)
           then Some (y @ ''-'' @ m) else None)
      | _ \<Rightarrow> None)"

subsection \<open>GET /api/roster\<close>

text \<open>\<open>ORDER BY group_id, full_name\<close>, for the collation \<open>coll\<close> of the database.\<close>

definition nurse_le :: "(string \<Rightarrow> string \<Rightarrow> bool) \<Rightarrow> nurse \<Rightarrow> nurse \<Rightarrow> bool" where
  "nurse_le coll a b =
     (group_id a < group_id b \<or> (group_id a = group_id b \<and> coll (full_name a) (full_name b)))"

fun insert_by :: "('a \<Rightarrow> 'a \<Rightarrow> bool) \<Rightarrow> 'a \<Rightarrow> 'a list \<Rightarrow> 'a list" where
  "insert_by le x [] = [x]"
| "insert_by le x (y # ys) = (if le x y then x # y # ys else y # insert_by le x ys)"

definition order_by :: "('a \<Rightarrow> 'a \<Rightarrow> bool) \<Rightarrow> 'a list \<Rightarrow> 'a list" where
  "order_by le xs = foldr (insert_by le) xs []"

record roster_view =
  view_nurse_id :: int
  view_full_name :: string
  view_group_id :: int
  planned_shift :: "string option"
  planned_ward :: "string option"
  actual_shift :: "string option"
  actual_ward :: "string option"

text \<open>The rows a LEFT JOIN pairs with a nurse: the matching ones, or one row of NULLs.\<close>

definition left_join :: "roster_row list \<Rightarrow> int \<Rightarrow> string \<Rightarrow> roster_row option list" where
  "left_join tbl k d =
     (case filter (\<lambda>r. row_nurse_id r = Some k \<and> date r = d) tbl of
        [] \<Rightarrow> [None]
      | rs \<Rightarrow> map Some rs)"

definition joined :: "nurse \<Rightarrow> roster_row option \<Rightarrow> roster_row option \<Rightarrow> roster_view" where
  "joined n p a =
     \<lparr>view_nurse_id = nurse_id n, view_full_name = full_name n, view_group_id = group_id n,
      planned_shift = Option.bind p shift_code, planned_ward = Option.bind p ward,
      actual_shift = Option.bind a shift_code, actual_ward = Option.bind a ward\<rparr>"

definition getRosterForDate ::
  "(string \<Rightarrow> string \<Rightarrow> bool) \<Rightarrow> string option \<Rightarrow> db \<Rightarrow> http_error + roster_view list" where
  "getRosterForDate coll date_q d =
     (case date_q of
        None \<Rightarrow> Inl (Http400 ''Date query parameter is required'')
      | Some dt \<Rightarrow>
          if dt = [] then Inl (Http400 ''Date query parameter is required'')
          else
            Inr (concat (map (\<lambda>n.
                   concat (map (\<lambda>p. map (joined n p) (left_join (Roster_Actual d) (nurse_id n) dt))
                             (left_join (Roster_Planned d) (nurse_id n) dt)))
                 (order_by (nurse_le coll) (Nurses d)))))"

subsection \<open>POST /api/roster-planned and POST /api/roster-actual\<close>

record roster_entry =
  nurseId :: jsval
  shift :: jsval
  ward_v :: jsval

definition table_of :: "variant \<Rightarrow> db \<Rightarrow> roster_row list" where
  "table_of v d = (case v of Planned \<Rightarrow> Roster_Planned d | Actual \<Rightarrow> Roster_Actual d)"

definition set_table :: "variant \<Rightarrow> roster_row list \<Rightarrow> db \<Rightarrow> db" where
  "set_table v tbl d = (case v of Planned \<Rightarrow> d\<lparr>Roster_Planned := tbl\<rparr> | Actual \<Rightarrow> d\<lparr>Roster_Actual := tbl\<rparr>)"

definition same_key :: "int \<Rightarrow> string \<Rightarrow> roster_row \<Rightarrow> bool" where
  "same_key k dt r = (row_nurse_id r = Some k \<and> date r = dt)"

text \<open>
  \<open>INSERT INTO Roster_Planned (nurse_id, date, shift_code, ward) VALUES ($1, $2, $3, $4)
    ON CONFLICT (nurse_id, date) DO UPDATE SET shift_code = excluded.shift_code,
    ward = excluded.ward\<close>, one statement and one transaction. A NULL \<open>nurse_id\<close> conflicts
  with nothing and references nothing. The nurse of a row that is in the table exists (the
  foreign key, with ON DELETE CASCADE), so the reference is checked first here.
\<close>

definition upsert :: "variant \<Rightarrow> int option \<Rightarrow> string option \<Rightarrow> string option \<Rightarrow> string option \<Rightarrow> db \<Rightarrow> pg_error + db" where
  "upsert v nid dt code w d =
     (case dt of
        None \<Rightarrow> Inl NotNullViolation
      | Some dtext \<Rightarrow>
          (let tbl = table_of v d;
               new = \<lparr>row_nurse_id = nid, date = dtext, shift_code = code, ward = w\<rparr>
           in case nid of
                None \<Rightarrow> Inr (set_table v (tbl @ [new]) d)
              | Some k \<Rightarrow>
                  if k \<notin> nurse_id ` set (Nurses d) then Inl (ForeignKeyViolation k)
                  else if list_ex (same_key k dtext) tbl
                  then Inr (set_table v
                              (map (\<lambda>r. if same_key k dtext r then r\<lparr>shift_code := code, ward := w\<rparr> else r) tbl) d)
                  else Inr (set_table v (tbl @ [new]) d)))"

text \<open>\<open>dbRunAsync(sql, [entry.nurseId, date, entry.shift, entry.ward])\<close>\<close>

definition run_entry :: "variant \<Rightarrow> jsval \<Rightarrow> roster_entry \<Rightarrow> db \<Rightarrow> pg_error + db" where
  "run_entry v date_v x d =
     (case pg_int4 (nurseId x) of
        Inl err \<Rightarrow> Inl err
      | Inr nid \<Rightarrow> upsert v nid (pg_text date_v) (pg_text (shift x)) (pg_text (ward_v x)) d)"

text \<open>
  \<open>await Promise.all(roster.map((entry) => dbRunAsync(...)))\<close>. Every statement is started
  before the first one ends, each on a connection of the pool and in a transaction of its
  own; the database executes them one after another. The list \<open>roster\<close> is taken in the
  order of that execution. A statement that fails changes nothing and rejects its promise;
  the statements after it are executed all the same. The state is the database and the
  errors in the order in which they were raised.
\<close>

definition exec_entry :: "variant \<Rightarrow> jsval \<Rightarrow> db \<times> pg_error list \<Rightarrow> roster_entry \<Rightarrow> db \<times> pg_error list" where
  "exec_entry v date_v st x =
     (case run_entry v date_v x (fst st) of
        Inl err \<Rightarrow> (fst st, snd st @ [err])
      | Inr d' \<Rightarrow> (d', snd st))"

definition failure_text :: "variant \<Rightarrow> string" where
  "failure_text v =
     (case v of Planned \<Rightarrow> ''Failed to update planned roster''
              | Actual \<Rightarrow> ''Failed to update actual roster'')"

definition success_text :: "variant \<Rightarrow> string" where
  "success_text v =
     (case v of Planned \<Rightarrow> ''Planned roster updated'' | Actual \<Rightarrow> ''Actual roster updated'')"

text \<open>
  The response and the database once every statement has ended. \<open>Promise.all\<close> rejects
  with the first error raised. \<open>roster\<close> is an array of objects, or \<open>None\<close> when the body
  has no truthy \<open>roster\<close>.
\<close>

definition upsertAssignments ::
  "variant \<Rightarrow> jsval \<Rightarrow> roster_entry list option \<Rightarrow> db \<Rightarrow> (http_error + string) \<times> db" where
  "upsertAssignments v date_v roster d =
     (case roster of
        None \<Rightarrow> (Inl (Http400 ''Missing date or roster data''), d)
      | Some entries \<Rightarrow>
          if \<not> truthy date_v then (Inl (Http400 ''Missing date or roster data''), d)
          else
            (let st = foldl (exec_entry v date_v) (d, []) entries
             in case snd st of
                  [] \<Rightarrow> (Inr (success_text v), fst st)
                | err # _ \<Rightarrow> (Inl (Http500_details (failure_text v) err), fst st)))"

section \<open>Notions used in the statements\<close>

text \<open>The cell of nurse \<open>k\<close> and day \<open>d\<close> in a dataMap.\<close>

definition cell_at :: "dataMap \<Rightarrow> int \<Rightarrow> int \<Rightarrow> cell option" where
  "cell_at dm k d = (case dm k of None \<Rightarrow> None | Some e \<Rightarrow> shifts e d)"

definition get_code :: "variant \<Rightarrow> cell \<Rightarrow> string option" where
  "get_code v c = (case v of Planned \<Rightarrow> planned c | Actual \<Rightarrow> actual c)"

text \<open>A fetched row addresses the cell of nurse \<open>k\<close> and day \<open>d\<close>.\<close>

definition targets :: "roster_row \<Rightarrow> int \<Rightarrow> int \<Rightarrow> bool" where
  "targets r k d =
     (date r \<noteq> [] \<and> row_nurse_id r = Some k \<and> day_of_date (date r) = Some d \<and> d \<noteq> 0)"

text \<open>The code that the rows leave in a cell that held \<open>x\<close>: the one of the last row that addresses it.\<close>

definition latest_code :: "string option \<Rightarrow> roster_row list \<Rightarrow> int \<Rightarrow> int \<Rightarrow> string option" where
  "latest_code x rows k d = foldl (\<lambda>y r. if targets r k d then shift_code r else y) x rows"

definition blank_shifts :: "int \<Rightarrow> (int \<rightharpoonup> cell)" where
  "blank_shifts dim = (\<lambda>d. if 1 \<le> d \<and> d \<le> dim then Some empty_cell else None)"

text \<open>The dataMap after lines 255 to 265: every nurse with an empty cell for every day.\<close>

definition blank_dataMap :: "int \<Rightarrow> nurse list \<Rightarrow> dataMap" where
  "blank_dataMap dim ns = (\<lambda>k. map_option (\<lambda>e. e\<lparr>shifts := blank_shifts dim\<rparr>) (init_dataMap ns k))"

text \<open>The working codes and the leave codes of the specification.\<close>

definition working_codes :: "string set" where
  "working_codes = {''A'', ''M'', ''N'', ''G''}"

definition leave_codes :: "string set" where
  "leave_codes = {''WO'', ''NO'', ''SO'', ''PL'', ''SL'', ''NH'', ''PH''}"

text \<open>A code that is neither null nor the empty string.\<close>

definition nonempty_code :: "string option \<Rightarrow> bool" where
  "nonempty_code x = (x \<noteq> None \<and> x \<noteq> Some [])"

definition cell_planned_work :: "entry \<Rightarrow> int \<Rightarrow> bool" where
  "cell_planned_work e d = (\<exists>c. shifts e d = Some c \<and> js_includes plannedWorkCodes (planned c))"

definition cell_deviation :: "entry \<Rightarrow> int \<Rightarrow> bool" where
  "cell_deviation e d =
     (\<exists>c. shifts e d = Some c \<and> js_includes plannedWorkCodes (planned c)
          \<and> js_includes actualLeaveCodes (actual c))"

definition cell_display :: "entry \<Rightarrow> int \<Rightarrow> string" where
  "cell_display e d = (case shifts e d of None \<Rightarrow> [] | Some c \<Rightarrow> displayCode c)"

text \<open>
  The percentage \<open>100 * devs / shifts_planned\<close> rounded to the nearest tenth, a tie going
  up, written with one decimal and the percent sign.
\<close>

definition percent_text :: "int \<Rightarrow> int \<Rightarrow> string" where
  "percent_text devs shifts_planned =
     (let n = (2000 * devs + shifts_planned) div (2 * shifts_planned)
      in show_int (n div 10) @ ''.'' @ show_int (n mod 10) @ ''%'')"

definition agree :: "int \<Rightarrow> int \<Rightarrow> bool" where
  "agree shifts_planned devs = (deviation_text devs shifts_planned = percent_text devs shifts_planned)"

definition row_agrees :: "int \<Rightarrow> bool" where
  "row_agrees shifts_planned = list_all (agree shifts_planned) [0..shifts_planned]"

text \<open>
  The rows of the specification for the nurses in the order of the query: one row for
  every nurse, by her name, and a blank row (\<open>None\<close>) between two neighbours of
  different groups.
\<close>

fun with_separators :: "nurse list \<Rightarrow> string option list" where
  "with_separators [] = []"
| "with_separators [a] = [Some (full_name a)]"
| "with_separators (a # b # ns) =
     Some (full_name a) # (if group_id a \<noteq> group_id b then [None] else []) @ with_separators (b # ns)"

definition row_label :: "sheet_row \<Rightarrow> string option" where
  "row_label r = (case r of Blank \<Rightarrow> None | Data x \<Rightarrow> Some (name x))"

text \<open>The two counters at the end of the loop over the days of a nurse.\<close>

definition nurse_counts :: "dataMap \<Rightarrow> nurse \<Rightarrow> int \<Rightarrow> (int \<times> int) option" where
  "nurse_counts dm n dim =
     (case day_loop dm n dim 1 init_acc of
        Inl err \<Rightarrow> None
      | Inr acc \<Rightarrow> Some (totalPlannedShifts acc, totalDeviations acc))"

text \<open>The entry of a date in the answer of GET /api/roster-status, if there is one.\<close>

definition status_of :: "http_error + status_map \<Rightarrow> string \<Rightarrow> day_status option" where
  "status_of res d = (case res of Inl err \<Rightarrow> None | Inr st \<Rightarrow> st d)"

text \<open>The dates of the rows of a table that fall in a month.\<close>

definition dates_in :: "month_of \<Rightarrow> roster_row list \<Rightarrow> string \<Rightarrow> string set" where
  "dates_in tm tbl m = date ` {r \<in> set tbl. tm (date r) = Some m}"

text \<open>The shift and the ward that a row of GET /api/roster shows for a variant.\<close>

definition view_shift :: "variant \<Rightarrow> roster_view \<Rightarrow> string option" where
  "view_shift v row = (case v of Planned \<Rightarrow> planned_shift row | Actual \<Rightarrow> actual_shift row)"

definition view_ward :: "variant \<Rightarrow> roster_view \<Rightarrow> string option" where
  "view_ward v row = (case v of Planned \<Rightarrow> planned_ward row | Actual \<Rightarrow> actual_ward row)"

text \<open>The number of rows of a table for a nurse and a date.\<close>

definition key_count :: "roster_row list \<Rightarrow> int \<Rightarrow> string \<Rightarrow> nat" where
  "key_count tbl k dt = length (filter (same_key k dt) tbl)"

text \<open>The error that the statement of an entry raises, if it raises one.\<close>

definition entry_error :: "nurse list \<Rightarrow> roster_entry \<Rightarrow> pg_error option" where
  "entry_error ns x =
     (case pg_int4 (nurseId x) of
        Inl err \<Rightarrow> Some err
      | Inr None \<Rightarrow> None
      | Inr (Some k) \<Rightarrow> if k \<in> nurse_id ` set ns then None else Some (ForeignKeyViolation k))"

definition entry_ok :: "nurse list \<Rightarrow> roster_entry \<Rightarrow> bool" where
  "entry_ok ns x = (entry_error ns x = None)"

subsection \<open>Example data\<close>

definition nurse_ann :: nurse where
  "nurse_ann = \<lparr>nurse_id = 1, full_name = ''Ann'', group_id = 1\<rparr>"

definition nurse_zoe :: nurse where
  "nurse_zoe = \<lparr>nurse_id = 2, full_name = ''Zoe'', group_id = 0\<rparr>"

definition nurse_bea :: nurse where
  "nurse_bea = \<lparr>nurse_id = 3, full_name = ''Bea'', group_id = 2\<rparr>"

definition row_for :: "int \<Rightarrow> string \<Rightarrow> string \<Rightarrow> roster_row" where
  "row_for k dt code = \<lparr>row_nurse_id = Some k, date = dt, shift_code = Some code, ward = None\<rparr>"

definition empty_db :: db where
  "empty_db = \<lparr>Nurses = [], Roster_Planned = [], Roster_Actual = [], nurse_seq = 0\<rparr>"

definition ann_db :: db where
  "ann_db = \<lparr>Nurses = [nurse_ann], Roster_Planned = [], Roster_Actual = [], nurse_seq = 1\<rparr>"

definition blank_code_db :: db where
  "blank_code_db = ann_db\<lparr>Roster_Planned := [row_for 1 ''2025-07-01'' []]\<rparr>"

definition entry_for :: "string \<Rightarrow> string \<Rightarrow> roster_entry" where
  "entry_for k code = \<lparr>nurseId = JStr k, shift = JStr code, ward_v = JStr ''ICU''\<rparr>"



declare day_loop.simps [simp del] init_days.simps [simp del] show_int.simps [simp del]
  bitlen.simps [simp del]

section \<open>Lemmas about the report builder\<close>

subsection \<open>The loop over the days of a nurse\<close>

lemma card_interval_step:
  assumes "day \<le> dim"
  shows "card {d::int. day \<le> d \<and> d \<le> dim \<and> P d} =
         (if P day then 1 else 0) + card {d. day + 1 \<le> d \<and> d \<le> dim \<and> P d}"
proof -
  let ?R = "{d. day + 1 \<le> d \<and> d \<le> dim \<and> P d}"
  have fin: "finite ?R"
    by (rule finite_subset [of _ "{day + 1..dim}"]) auto
  have notin: "day \<notin> ?R" by simp
  show ?thesis
  proof (cases "P day")
    case True
    with assms have "{d. day \<le> d \<and> d \<le> dim \<and> P d} = insert day ?R" by auto
    with fin notin True show ?thesis by simp
  next
    case False
    have "{d. day \<le> d \<and> d \<le> dim \<and> P d} = ?R"
    proof (rule set_eqI)
      fix d
      show "d \<in> {d. day \<le> d \<and> d \<le> dim \<and> P d} \<longleftrightarrow> d \<in> ?R"
        using False by (cases "d = day") auto
    qed
    with False show ?thesis by simp
  qed
qed

lemma card_interval_empty: "dim < day \<Longrightarrow> card {d::int. day \<le> d \<and> d \<le> dim \<and> P d} = 0"
proof -
  assume "dim < day"
  then have "{d::int. day \<le> d \<and> d \<le> dim \<and> P d} = {}" by auto
  then show ?thesis by (simp only: card.empty)
qed

lemma day_step_planned:
  "totalPlannedShifts (day_step (shifts e d) d acc) =
     totalPlannedShifts acc + (if cell_planned_work e d then 1 else 0)"
  by (auto simp: day_step_def cell_planned_work_def Let_def split: option.splits)

lemma day_step_deviations:
  "totalDeviations (day_step (shifts e d) d acc) =
     totalDeviations acc + (if cell_deviation e d then 1 else 0)"
  by (auto simp: day_step_def cell_deviation_def Let_def split: option.splits)

lemma day_step_days:
  "days (day_step (shifts e d) d acc) = (days acc)(d \<mapsto> cell_display e d)"
  by (auto simp: day_step_def cell_display_def Let_def split: option.splits)

lemma day_loop_total:
  "dm (nurse_id n) = Some e \<Longrightarrow> \<exists>acc'. day_loop dm n dim day acc = Inr acc'"
proof (induction dm n dim day acc rule: day_loop.induct)
  case (1 dm n dim day acc)
  then show ?case
    by (cases "day \<le> dim") (simp_all add: day_loop.simps [of dm n dim day acc])
qed

lemma day_loop_counts:
  "dm (nurse_id n) = Some e \<Longrightarrow> day_loop dm n dim day acc = Inr acc' \<Longrightarrow>
     totalPlannedShifts acc' =
       totalPlannedShifts acc + int (card {d. day \<le> d \<and> d \<le> dim \<and> cell_planned_work e d}) \<and>
     totalDeviations acc' =
       totalDeviations acc + int (card {d. day \<le> d \<and> d \<le> dim \<and> cell_deviation e d}) \<and>
     days acc' = (\<lambda>d. if day \<le> d \<and> d \<le> dim then Some (cell_display e d) else days acc d)"
proof (induction dm n dim day acc rule: day_loop.induct)
  case (1 dm n dim day acc)
  show ?case
  proof (cases "day \<le> dim")
    case True
    with "1.prems" have run: "day_loop dm n dim (day + 1) (day_step (shifts e day) day acc) = Inr acc'"
      by (simp add: day_loop.simps [of dm n dim day acc])
    note ih = "1.IH" [OF True "1.prems"(1) "1.prems"(1) run]
    have d: "days acc' = (\<lambda>d. if day \<le> d \<and> d \<le> dim then Some (cell_display e d) else days acc d)"
      using ih True by (auto simp: day_step_days fun_eq_iff)
    show ?thesis
      using ih d True
      by (simp add: day_step_planned day_step_deviations
          card_interval_step [OF True, of "cell_planned_work e"]
          card_interval_step [OF True, of "cell_deviation e"])
  next
    case False
    with "1.prems" have "acc' = acc"
      by (simp add: day_loop.simps [of dm n dim day acc])
    with False show ?thesis
      by (auto simp: card_interval_empty fun_eq_iff)
  qed
qed

subsection \<open>The dataMap before the rows are filled in\<close>

lemma init_dataMap_snoc:
  "init_dataMap (ns @ [n]) = (init_dataMap ns)(nurse_id n \<mapsto> \<lparr>nurse_of = n, shifts = Map.empty\<rparr>)"
  by (simp add: init_dataMap_def)

lemma init_dataMap_dom: "(init_dataMap ns k \<noteq> None) = (k \<in> nurse_id ` set ns)"
proof (induction ns rule: rev_induct)
  case Nil
  show ?case by (simp add: init_dataMap_def)
next
  case (snoc n ns)
  then show ?case by (auto simp: init_dataMap_snoc)
qed

lemma init_dataMap_shifts: "init_dataMap ns k = Some e \<Longrightarrow> shifts e = Map.empty"
proof (induction ns rule: rev_induct)
  case Nil
  then show ?case by (simp add: init_dataMap_def)
next
  case (snoc n ns)
  then show ?case by (auto simp: init_dataMap_snoc split: if_splits)
qed

lemma forEach_init_cell:
  "\<forall>n \<in> set ns. dm (nurse_id n) \<noteq> None \<Longrightarrow>
   forEach (init_cell day) dm ns =
     Inr (\<lambda>k. if k \<in> nurse_id ` set ns
              then map_option (\<lambda>e. e\<lparr>shifts := (shifts e)(day \<mapsto> empty_cell)\<rparr>) (dm k)
              else dm k)"
proof (induction ns arbitrary: dm)
  case Nil
  show ?case by simp
next
  case (Cons n ns)
  from Cons.prems obtain e where e: "dm (nurse_id n) = Some e" by auto
  let ?dm = "dm(nurse_id n \<mapsto> e\<lparr>shifts := (shifts e)(day \<mapsto> empty_cell)\<rparr>)"
  have "\<forall>m \<in> set ns. ?dm (nurse_id m) \<noteq> None" using Cons.prems by auto
  from Cons.IH [OF this]
  have ih: "forEach (init_cell day) ?dm ns =
     Inr (\<lambda>k. if k \<in> nurse_id ` set ns
              then map_option (\<lambda>e. e\<lparr>shifts := (shifts e)(day \<mapsto> empty_cell)\<rparr>) (?dm k)
              else ?dm k)" .
  have step: "forEach (init_cell day) dm (n # ns) = forEach (init_cell day) ?dm ns"
    using e by (simp add: init_cell_def)
  have "(\<lambda>k. if k \<in> nurse_id ` set ns
              then map_option (\<lambda>e. e\<lparr>shifts := (shifts e)(day \<mapsto> empty_cell)\<rparr>) (?dm k)
              else ?dm k) =
        (\<lambda>k. if k \<in> nurse_id ` set (n # ns)
              then map_option (\<lambda>e. e\<lparr>shifts := (shifts e)(day \<mapsto> empty_cell)\<rparr>) (dm k)
              else dm k)"
    using e by (auto simp: fun_eq_iff)
  with ih step show ?case by simp
qed

lemma shifts_step:
  "day \<le> dim \<Longrightarrow>
   (\<lambda>d. if day + 1 \<le> d \<and> d \<le> dim then Some c else (f(day \<mapsto> c)) d) =
   (\<lambda>d::int. if day \<le> d \<and> d \<le> dim then Some c else f d)"
  by (rule ext) auto

lemma entry_step:
  "day \<le> dim \<Longrightarrow>
   (e\<lparr>shifts := (shifts e)(day \<mapsto> c)\<rparr>)
     \<lparr>shifts := (\<lambda>d. if day + 1 \<le> d \<and> d \<le> dim then Some c
                    else shifts (e\<lparr>shifts := (shifts e)(day \<mapsto> c)\<rparr>) d)\<rparr> =
   e\<lparr>shifts := (\<lambda>d. if day \<le> d \<and> d \<le> dim then Some c else shifts e d)\<rparr>"
proof -
  assume le: "day \<le> dim"
  have "(\<lambda>d. if day + 1 \<le> d \<and> d \<le> dim then Some c
             else shifts (e\<lparr>shifts := (shifts e)(day \<mapsto> c)\<rparr>) d) =
        (\<lambda>d. if day \<le> d \<and> d \<le> dim then Some c else shifts e d)"
    using shifts_step [OF le, of c "shifts e"] by (simp cong: if_cong)
  then have "e\<lparr>shifts := (\<lambda>d. if day + 1 \<le> d \<and> d \<le> dim then Some c
             else shifts (e\<lparr>shifts := (shifts e)(day \<mapsto> c)\<rparr>) d)\<rparr> =
        e\<lparr>shifts := (\<lambda>d. if day \<le> d \<and> d \<le> dim then Some c else shifts e d)\<rparr>"
    by (rule arg_cong [where f = "\<lambda>F. e\<lparr>shifts := F\<rparr>"])
  then show ?thesis by simp
qed

lemma init_days_result:
  "\<forall>n \<in> set ns. dm (nurse_id n) \<noteq> None \<Longrightarrow>
   init_days dim ns day dm =
     Inr (\<lambda>k. if k \<in> nurse_id ` set ns
              then map_option
                     (\<lambda>e. e\<lparr>shifts := (\<lambda>d. if day \<le> d \<and> d \<le> dim then Some empty_cell else shifts e d)\<rparr>)
                     (dm k)
              else dm k)"
proof (induction dim ns day dm rule: init_days.induct)
  case (1 dim ns day dm)
  show ?case
  proof (cases "day \<le> dim")
    case False
    then have no: "\<And>d. \<not> (day \<le> d \<and> d \<le> dim)" by arith
    have "(\<lambda>k. if k \<in> nurse_id ` set ns
              then map_option
                     (\<lambda>e. e\<lparr>shifts := (\<lambda>d. if day \<le> d \<and> d \<le> dim then Some empty_cell else shifts e d)\<rparr>)
                     (dm k)
              else dm k) = dm"
      by (rule ext) (simp add: no option.map_ident)
    with False show ?thesis
      by (simp add: init_days.simps [of dim ns day dm])
  next
    case True
    let ?dm = "\<lambda>k. if k \<in> nurse_id ` set ns
              then map_option (\<lambda>e. e\<lparr>shifts := (shifts e)(day \<mapsto> empty_cell)\<rparr>) (dm k)
              else dm k"
    have fe: "forEach (init_cell day) dm ns = Inr ?dm"
      by (rule forEach_init_cell) (rule "1.prems")
    have pre: "\<forall>n \<in> set ns. ?dm (nurse_id n) \<noteq> None"
      using "1.prems" by auto
    have ih: "init_days dim ns (day + 1) ?dm =
        Inr (\<lambda>k. if k \<in> nurse_id ` set ns
              then map_option
                     (\<lambda>e. e\<lparr>shifts := (\<lambda>d. if day + 1 \<le> d \<and> d \<le> dim then Some empty_cell else shifts e d)\<rparr>)
                     (?dm k)
              else ?dm k)"
      by (rule "1.IH" [OF True fe pre])
    have "init_days dim ns day dm = init_days dim ns (day + 1) ?dm"
      using True fe by (simp add: init_days.simps [of dim ns day dm])
    also note ih
    finally have res: "init_days dim ns day dm =
        Inr (\<lambda>k. if k \<in> nurse_id ` set ns
              then map_option
                     (\<lambda>e. e\<lparr>shifts := (\<lambda>d. if day + 1 \<le> d \<and> d \<le> dim then Some empty_cell else shifts e d)\<rparr>)
                     (?dm k)
              else ?dm k)" .
    have "(\<lambda>k. if k \<in> nurse_id ` set ns
              then map_option
                     (\<lambda>e. e\<lparr>shifts := (\<lambda>d. if day + 1 \<le> d \<and> d \<le> dim then Some empty_cell else shifts e d)\<rparr>)
                     (?dm k)
              else ?dm k) =
          (\<lambda>k. if k \<in> nurse_id ` set ns
              then map_option
                     (\<lambda>e. e\<lparr>shifts := (\<lambda>d. if day \<le> d \<and> d \<le> dim then Some empty_cell else shifts e d)\<rparr>)
                     (dm k)
              else dm k)"
    proof (rule ext)
      fix k
      show "(if k \<in> nurse_id ` set ns
              then map_option
                     (\<lambda>e. e\<lparr>shifts := (\<lambda>d. if day + 1 \<le> d \<and> d \<le> dim then Some empty_cell else shifts e d)\<rparr>)
                     (?dm k)
              else ?dm k) =
            (if k \<in> nurse_id ` set ns
              then map_option
                     (\<lambda>e. e\<lparr>shifts := (\<lambda>d. if day \<le> d \<and> d \<le> dim then Some empty_cell else shifts e d)\<rparr>)
                     (dm k)
              else dm k)"
        by (cases "dm k") (simp_all add: entry_step [OF True])
    qed
    with res show ?thesis by simp
  qed
qed

lemma init_days_init_dataMap:
  "init_days dim ns 1 (init_dataMap ns) =
     Inr (\<lambda>k. map_option (\<lambda>e. e\<lparr>shifts := blank_shifts dim\<rparr>) (init_dataMap ns k))"
proof -
  have pre: "\<forall>n \<in> set ns. init_dataMap ns (nurse_id n) \<noteq> None"
    unfolding init_dataMap_dom by (rule ballI) (rule imageI)
  have eq: "(\<lambda>k. if k \<in> nurse_id ` set ns
              then map_option
                     (\<lambda>e. e\<lparr>shifts := (\<lambda>d. if 1 \<le> d \<and> d \<le> dim then Some empty_cell else shifts e d)\<rparr>)
                     (init_dataMap ns k)
              else init_dataMap ns k) =
        (\<lambda>k. map_option (\<lambda>e. e\<lparr>shifts := blank_shifts dim\<rparr>) (init_dataMap ns k))"
  proof (rule ext)
    fix k
    show "(if k \<in> nurse_id ` set ns
              then map_option
                     (\<lambda>e. e\<lparr>shifts := (\<lambda>d. if 1 \<le> d \<and> d \<le> dim then Some empty_cell else shifts e d)\<rparr>)
                     (init_dataMap ns k)
              else init_dataMap ns k) =
          map_option (\<lambda>e. e\<lparr>shifts := blank_shifts dim\<rparr>) (init_dataMap ns k)"
    proof (cases "init_dataMap ns k")
      case None
      then show ?thesis by simp
    next
      case (Some e)
      then have "shifts e = Map.empty" by (rule init_dataMap_shifts)
      then have "(\<lambda>d. if 1 \<le> d \<and> d \<le> dim then Some empty_cell else shifts e d) = blank_shifts dim"
        by (simp add: blank_shifts_def [abs_def] cong: if_cong)
      then have "e\<lparr>shifts := (\<lambda>d. if 1 \<le> d \<and> d \<le> dim then Some empty_cell else shifts e d)\<rparr> =
          e\<lparr>shifts := blank_shifts dim\<rparr>"
        by (rule arg_cong [where f = "\<lambda>F. e\<lparr>shifts := F\<rparr>"])
      moreover from Some have "k \<in> nurse_id ` set ns"
        using init_dataMap_dom [of ns k] by simp
      ultimately show ?thesis using Some by simp
    qed
  qed
  show ?thesis
    using init_days_result [OF pre, of dim 1] by (simp only: eq)
qed

subsection \<open>Filling in the rows\<close>

lemma try_fill_never_throws: "try_fill v dm k e p \<noteq> Inl err"
  by (simp add: try_fill_def split: option.splits)

lemma fill_row_log: "snd (fill_row v st p) = snd st"
  by (auto simp: fill_row_def Let_def try_fill_never_throws split: option.splits sum.splits prod.splits)

lemma fill_rows_log: "snd (fill_rows v st rows) = snd st"
  unfolding fill_rows_def
  by (induction rows arbitrary: st) (simp_all add: fill_row_log)

lemma get_set_code: "get_code v (set_code v x c) = x"
  by (cases v) (simp_all add: get_code_def set_code_def)

lemma get_set_code_other: "v \<noteq> w \<Longrightarrow> get_code w (set_code v x c) = get_code w c"
  by (cases v; cases w) (simp_all add: get_code_def set_code_def)

lemma set_get_code: "set_code v (get_code v c) c = c"
  by (cases v) (simp_all add: get_code_def set_code_def)

lemma set_set_code: "set_code v x (set_code v y c) = set_code v x c"
  by (cases v) (simp_all add: set_code_def)

lemma fill_row_dom: "(fst (fill_row v st p) k = None) = (fst st k = None)"
  by (auto simp: fill_row_def try_fill_def dataMap_get_def Let_def
      split: option.splits sum.splits prod.splits if_splits)

lemma fill_row_cell:
  "cell_at (fst (fill_row v st p)) k d =
     (if targets p k d then map_option (set_code v (shift_code p)) (cell_at (fst st) k d)
      else cell_at (fst st) k d)"
  by (auto simp: fill_row_def try_fill_def dataMap_get_def cell_at_def targets_def Let_def
      split: option.splits sum.splits prod.splits if_splits)

lemma fill_rows_dom: "(fst (fill_rows v st rows) k = None) = (fst st k = None)"
  unfolding fill_rows_def
  by (induction rows arbitrary: st) (simp_all add: fill_row_dom)

lemma fill_rows_cell:
  "cell_at (fst (fill_rows v st rows)) k d =
     map_option (\<lambda>c. set_code v (latest_code (get_code v c) rows k d) c) (cell_at (fst st) k d)"
  unfolding fill_rows_def latest_code_def
proof (induction rows arbitrary: st)
  case Nil
  show ?case by (simp add: set_get_code option.map_ident)
next
  case (Cons r rows)
  show ?case
    by (cases "cell_at (fst st) k d")
       (simp_all add: Cons.IH fill_row_cell get_set_code set_set_code set_get_code)
qed

subsection \<open>The filled dataMap\<close>

lemma fill_dataMap_eq:
  "fill_dataMap dim ns P A =
     Inr (fill_rows Actual (fill_rows Planned (blank_dataMap dim ns, []) P) A)"
  by (simp add: fill_dataMap_def init_days_init_dataMap blank_dataMap_def)

lemma blank_dataMap_dom: "(blank_dataMap dim ns k = None) = (k \<notin> nurse_id ` set ns)"
  using init_dataMap_dom [of ns k] by (auto simp: blank_dataMap_def)

lemma cell_at_blank:
  "cell_at (blank_dataMap dim ns) k d = (if k \<in> nurse_id ` set ns then blank_shifts dim d else None)"
  using init_dataMap_dom [of ns k]
  by (cases "init_dataMap ns k") (auto simp: cell_at_def blank_dataMap_def)

lemma fill_dataMap_log: "fill_dataMap dim ns P A = Inr st \<Longrightarrow> snd st = []"
  by (auto simp: fill_dataMap_eq fill_rows_log)

lemma fill_dataMap_dom:
  "fill_dataMap dim ns P A = Inr st \<Longrightarrow> (fst st k = None) = (k \<notin> nurse_id ` set ns)"
  by (auto simp: fill_dataMap_eq fill_rows_dom blank_dataMap_dom)

lemma fill_dataMap_cell:
  assumes "fill_dataMap dim ns P A = Inr st"
  shows "cell_at (fst st) k d =
     (if k \<in> nurse_id ` set ns \<and> 1 \<le> d \<and> d \<le> dim
      then Some \<lparr>planned = latest_code (Some []) P k d, actual = latest_code (Some []) A k d\<rparr>
      else None)"
proof -
  from assms have st: "st = fill_rows Actual (fill_rows Planned (blank_dataMap dim ns, []) P) A"
    by (simp add: fill_dataMap_eq)
  show ?thesis
    unfolding st
    by (simp add: fill_rows_cell cell_at_blank blank_shifts_def empty_cell_def
        get_code_def set_code_def)
qed

subsection \<open>The rows of the worksheet\<close>

lemma nurse_rows_total:
  "\<forall>n \<in> set ns. dm (nurse_id n) \<noteq> None \<Longrightarrow> \<exists>out. nurse_rows dm dim cg ns ws = Inr out"
proof (induction ns arbitrary: cg ws)
  case Nil
  show ?case by simp
next
  case (Cons n ns)
  from Cons.prems obtain e where "dm (nurse_id n) = Some e" by auto
  from day_loop_total [where dm = dm and n = n and e = e, OF this]
  obtain acc where "day_loop dm n dim 1 init_acc = Inr acc" by blast
  moreover from Cons.prems have "\<forall>n \<in> set ns. dm (nurse_id n) \<noteq> None" by simp
  ultimately show ?case
    using Cons.IH by (simp add: Let_def)
qed

lemma nurse_rows_keeps: "nurse_rows dm dim cg ns ws = Inr out \<Longrightarrow> set ws \<subseteq> set out"
proof (induction ns arbitrary: cg ws)
  case Nil
  then show ?case by simp
next
  case (Cons n ns)
  then show ?case
    by (fastforce simp: Let_def split: sum.splits if_splits)
qed

lemma nurse_rows_has_row:
  "nurse_rows dm dim cg ns ws = Inr out \<Longrightarrow> n \<in> set ns \<Longrightarrow>
   day_loop dm n dim 1 init_acc = Inr acc \<Longrightarrow> Data (make_row n dim acc) \<in> set out"
proof (induction ns arbitrary: cg ws)
  case Nil
  then show ?case by simp
next
  case (Cons m ns)
  from Cons.prems(1) obtain acc' where
    acc': "day_loop dm m dim 1 init_acc = Inr acc'" and
    rest: "nurse_rows dm dim (group_id m) ns
             ((if group_id m \<noteq> cg \<and> cg \<noteq> 0 then ws @ [Blank] else ws) @ [Data (make_row m dim acc')]) = Inr out"
    by (auto simp: Let_def split: sum.splits)
  show ?case
  proof (cases "n = m")
    case True
    with acc' Cons.prems(3) have "acc' = acc" by simp
    with True nurse_rows_keeps [OF rest] show ?thesis by auto
  next
    case False
    with Cons.prems(2) have "n \<in> set ns" by simp
    from Cons.IH [OF rest this Cons.prems(3)] show ?thesis .
  qed
qed

lemma build_report_ok:
  "\<exists>w. build_report dim ns P A = (Inr w, []) \<and> header w = columns dim"
proof -
  obtain st where st: "fill_dataMap dim ns P A = Inr st"
    by (simp add: fill_dataMap_eq)
  have "\<forall>n \<in> set ns. fst st (nurse_id n) \<noteq> None"
    using fill_dataMap_dom [OF st] by auto
  from nurse_rows_total [OF this] obtain out where "nurse_rows (fst st) dim 0 ns [] = Inr out"
    by blast
  with st fill_dataMap_log [OF st] show ?thesis
    by (simp add: build_report_def)
qed

subsection \<open>Rows that change nothing\<close>

lemma latest_code_no_target:
  "\<forall>x \<in> set xs. \<not> targets x k d \<Longrightarrow> latest_code y xs k d = y"
  unfolding latest_code_def by (induction xs arbitrary: y) simp_all

lemma entry_update_same:
  assumes "dm k = Some e" and "shifts e d = Some c"
  shows "dm(k \<mapsto> e\<lparr>shifts := (shifts e)(d \<mapsto> c)\<rparr>) = dm"
proof -
  from assms(2) have "(shifts e)(d \<mapsto> c) = shifts e" by (rule map_upd_triv)
  then have "e\<lparr>shifts := (shifts e)(d \<mapsto> c)\<rparr> = e\<lparr>shifts := shifts e\<rparr>"
    by (rule arg_cong [where f = "\<lambda>F. e\<lparr>shifts := F\<rparr>"])
  then have "e\<lparr>shifts := (shifts e)(d \<mapsto> c)\<rparr> = e" by simp
  with assms(1) show ?thesis by (simp add: map_upd_triv)
qed

lemma fill_row_same:
  assumes "\<And>k d c. targets r k d \<Longrightarrow> cell_at (fst st) k d = Some c \<Longrightarrow> get_code v c = shift_code r"
  shows "fill_row v st r = st"
proof (cases "date r = []")
  case True
  then show ?thesis by (simp add: fill_row_def)
next
  case nonempty: False
  show ?thesis
  proof (cases "dataMap_get (fst st) (row_nurse_id r)")
    case None
    then show ?thesis by (simp add: fill_row_def Let_def)
  next
    case (Some ke)
    obtain k e where ke: "ke = (k, e)" by (cases ke)
    from Some ke have k: "row_nurse_id r = Some k" and e: "fst st k = Some e"
      by (auto simp: dataMap_get_def split: option.splits)
    have "try_fill v (fst st) k e r = Inr (fst st)"
    proof (cases "day_of_date (date r)")
      case None
      then show ?thesis by (simp add: try_fill_def)
    next
      case (Some d)
      show ?thesis
      proof (cases "d \<noteq> 0 \<and> shifts e d \<noteq> None")
        case False
        with Some show ?thesis by (auto simp: try_fill_def)
      next
        case True
        then obtain c where c: "shifts e d = Some c" by auto
        from nonempty k Some True have "targets r k d" by (simp add: targets_def)
        moreover from e c have "cell_at (fst st) k d = Some c" by (simp add: cell_at_def)
        ultimately have "get_code v c = shift_code r" by (rule assms)
        then have "set_code v (shift_code r) c = c" using set_get_code [of v c] by simp
        with Some True c entry_update_same [where dm = "fst st" and k = k and e = e, OF e c]
        show ?thesis
          by (simp add: try_fill_def)
      qed
    qed
    with nonempty Some ke show ?thesis
      by (cases st) (simp add: fill_row_def Let_def)
  qed
qed

text \<open>A row that addresses no cell of the dataMap leaves it as it is, and logs nothing.\<close>

lemma row_without_cell_skipped:
  assumes "\<And>k d. targets p k d \<Longrightarrow> cell_at (fst st) k d = None"
  shows "fill_row v st p = st"
  by (rule fill_row_same) (use assms in fastforce)

lemma fill_rows_drop_row:
  assumes code: "shift_code r = Some []"
    and before: "\<forall>x \<in> set xs. \<forall>k d. targets r k d \<longrightarrow> \<not> targets x k d"
    and start: "\<And>k d c. cell_at (fst st) k d = Some c \<Longrightarrow> get_code v c = Some []"
  shows "fill_rows v st (xs @ r # ys) = fill_rows v st (xs @ ys)"
proof -
  have "fill_row v (fill_rows v st xs) r = fill_rows v st xs"
  proof (rule fill_row_same)
    fix k d c
    assume t: "targets r k d" and c: "cell_at (fst (fill_rows v st xs)) k d = Some c"
    from before t have "\<forall>x \<in> set xs. \<not> targets x k d" by blast
    then have same: "\<And>y. latest_code y xs k d = y" by (rule latest_code_no_target)
    from c obtain c0 where c0: "cell_at (fst st) k d = Some c0"
      and cc: "c = set_code v (latest_code (get_code v c0) xs k d) c0"
      by (auto simp: fill_rows_cell)
    from cc same have "c = c0" by (simp add: set_get_code)
    with start [OF c0] code show "get_code v c = shift_code r" by simp
  qed
  then show ?thesis by (simp add: fill_rows_def)
qed

lemma planned_fill_keeps_actual:
  "cell_at (fst (fill_rows Planned (blank_dataMap dim ns, []) P)) k d = Some c \<Longrightarrow>
   get_code Actual c = Some []"
  by (auto simp: fill_rows_cell cell_at_blank blank_shifts_def empty_cell_def get_code_def
      set_code_def split: if_splits)

lemma blank_planned:
  "cell_at (fst (blank_dataMap dim ns, log)) k d = Some c \<Longrightarrow> get_code Planned c = Some []"
  by (auto simp: cell_at_blank blank_shifts_def empty_cell_def get_code_def split: if_splits)

lemma build_report_fill:
  "build_report dim ns P A =
     (let st = fill_rows Actual (fill_rows Planned (blank_dataMap dim ns, []) P) A
      in case nurse_rows (fst st) dim 0 ns [] of
           Inl err \<Rightarrow> (Inl err, snd st)
         | Inr ws \<Rightarrow> (Inr \<lparr>header = columns dim, sheet_rows = ws\<rparr>, snd st))"
  by (simp add: build_report_def fill_dataMap_eq Let_def)

lemma build_report_drop_planned:
  assumes "shift_code r = Some []"
    and "\<forall>x \<in> set xs. \<forall>k d. targets r k d \<longrightarrow> \<not> targets x k d"
  shows "build_report dim ns (xs @ r # ys) A = build_report dim ns (xs @ ys) A"
  using fill_rows_drop_row
    [where st = "(blank_dataMap dim ns, [])" and v = Planned and ys = ys, OF assms blank_planned]
  by (simp add: build_report_fill)

lemma build_report_drop_actual:
  assumes "shift_code r = Some []"
    and "\<forall>x \<in> set xs. \<forall>k d. targets r k d \<longrightarrow> \<not> targets x k d"
  shows "build_report dim ns P (xs @ r # ys) = build_report dim ns P (xs @ ys)"
  using fill_rows_drop_row
    [where st = "fill_rows Planned (blank_dataMap dim ns, []) P" and v = Actual and ys = ys,
      OF assms planned_fill_keeps_actual]
  by (simp add: build_report_fill)

section \<open>Lemmas about the store\<close>

subsection \<open>The status map\<close>

lemma set_flag_idem: "set_flag v (set_flag v s) = set_flag v s"
  by (cases v) (simp_all add: set_flag_def)

lemma mark_dates:
  assumes "\<forall>d \<in> set ds. d \<noteq> [] \<and> d \<notin> set object_prototype_keys"
  shows "foldl (mark_date v) st ds =
     (\<lambda>d. if d \<in> set ds
          then Some (set_flag v (case st d of None \<Rightarrow> \<lparr>has_planned = False, has_actual = False\<rparr>
                                           | Some s \<Rightarrow> s))
          else st d)"
  using assms
proof (induction ds arbitrary: st)
  case Nil
  show ?case by simp
next
  case (Cons a ds)
  from Cons.prems have a: "a \<noteq> []" "a \<notin> set object_prototype_keys"
    and rest: "\<forall>d \<in> set ds. d \<noteq> [] \<and> d \<notin> set object_prototype_keys" by simp_all
  have step: "mark_date v st a =
      st(a \<mapsto> set_flag v (case st a of None \<Rightarrow> \<lparr>has_planned = False, has_actual = False\<rparr> | Some s \<Rightarrow> s))"
    using a by (simp add: mark_date_def split: option.splits)
  show ?case
    unfolding foldl_Cons Cons.IH [OF rest] step
    by (rule ext) (simp add: set_flag_idem)
qed

lemma select_month_ok:
  "\<forall>r \<in> set tbl. tm (date r) \<noteq> None \<Longrightarrow>
   select_month tm tbl m = Inr (filter (\<lambda>r. tm (date r) = Some m) tbl)"
  by (auto simp: select_month_def find_None_iff split: option.splits dest: find_Some_iff [THEN iffD1])

lemma select_distinct_dates_ok:
  assumes "\<forall>r \<in> set tbl. tm (date r) \<noteq> None"
  shows "\<exists>ds. select_distinct_dates tm tbl m = Inr ds \<and> set ds = dates_in tm tbl m"
  using select_month_ok [OF assms, of m]
  by (auto simp: select_distinct_dates_def dates_in_def)

lemma status_map_formula:
  assumes cast: "\<And>s. tm s \<noteq> None \<Longrightarrow> s \<noteq> [] \<and> s \<notin> set object_prototype_keys"
    and ok: "\<forall>r \<in> set (Roster_Planned d) \<union> set (Roster_Actual d). tm (date r) \<noteq> None"
    and m: "m \<noteq> []"
  shows "getStatusMap tm (Some m) d =
     Inr (\<lambda>x. if x \<in> dates_in tm (Roster_Planned d) m \<union> dates_in tm (Roster_Actual d) m
              then Some \<lparr>has_planned = x \<in> dates_in tm (Roster_Planned d) m,
                         has_actual = x \<in> dates_in tm (Roster_Actual d) m\<rparr>
              else None)"
proof -
  from ok have okp: "\<forall>r \<in> set (Roster_Planned d). tm (date r) \<noteq> None"
    and oka: "\<forall>r \<in> set (Roster_Actual d). tm (date r) \<noteq> None" by auto
  from select_distinct_dates_ok [OF okp, of m] obtain pd where
    pd: "select_distinct_dates tm (Roster_Planned d) m = Inr pd"
    and pds: "set pd = dates_in tm (Roster_Planned d) m" by blast
  from select_distinct_dates_ok [OF oka, of m] obtain ad where
    ad: "select_distinct_dates tm (Roster_Actual d) m = Inr ad"
    and ads: "set ad = dates_in tm (Roster_Actual d) m" by blast
  have plain: "\<And>tbl. \<forall>x \<in> dates_in tm tbl m. x \<noteq> [] \<and> x \<notin> set object_prototype_keys"
  proof
    fix tbl x
    assume "x \<in> dates_in tm tbl m"
    then have "tm x \<noteq> None" by (auto simp: dates_in_def)
    then show "x \<noteq> [] \<and> x \<notin> set object_prototype_keys" by (rule cast)
  qed
  have p1: "\<forall>x \<in> set pd. x \<noteq> [] \<and> x \<notin> set object_prototype_keys"
    unfolding pds by (rule plain)
  have p2: "\<forall>x \<in> set ad. x \<noteq> [] \<and> x \<notin> set object_prototype_keys"
    unfolding ads by (rule plain)
  have "getStatusMap tm (Some m) d =
      Inr (foldl (mark_date Actual) (foldl (mark_date Planned) Map.empty pd) ad)"
    using m pd ad by (simp add: getStatusMap_def)
  also have "foldl (mark_date Actual) (foldl (mark_date Planned) Map.empty pd) ad =
     (\<lambda>x. if x \<in> dates_in tm (Roster_Planned d) m \<union> dates_in tm (Roster_Actual d) m
              then Some \<lparr>has_planned = x \<in> dates_in tm (Roster_Planned d) m,
                         has_actual = x \<in> dates_in tm (Roster_Actual d) m\<rparr>
              else None)"
    unfolding mark_dates [OF p2] mark_dates [OF p1] pds ads
    by (rule ext) (simp add: set_flag_def)
  finally show ?thesis .
qed

lemma iso_month_plain: "iso_month s \<noteq> None \<Longrightarrow> s \<noteq> [] \<and> s \<notin> set object_prototype_keys"
proof -
  assume a: "iso_month s \<noteq> None"
  have "iso_month [] = None" by (simp add: iso_month_def)
  moreover have "\<forall>k \<in> set object_prototype_keys. iso_month k = None"
    by (simp add: object_prototype_keys_def iso_month_def)
  ultimately show ?thesis using a by auto
qed

subsection \<open>Upserts and the roster of a date\<close>

lemma set_insert_by: "set (insert_by le x xs) = insert x (set xs)"
  by (induction xs) auto

lemma set_order_by: "set (order_by le xs) = set xs"
  unfolding order_by_def by (induction xs) (simp_all add: set_insert_by)

lemma set_left_join:
  "set (left_join tbl k dt) =
     (if \<exists>r \<in> set tbl. same_key k dt r then Some ` {r \<in> set tbl. same_key k dt r} else {None})"
proof (cases "filter (\<lambda>r. row_nurse_id r = Some k \<and> date r = dt) tbl")
  case Nil
  then have "\<forall>r \<in> set tbl. \<not> same_key k dt r"
    by (auto simp: filter_empty_conv same_key_def)
  with Nil show ?thesis by (auto simp: left_join_def)
next
  case (Cons r rs)
  then have "r \<in> set (filter (\<lambda>r. row_nurse_id r = Some k \<and> date r = dt) tbl)" by simp
  then have ex: "\<exists>r \<in> set tbl. same_key k dt r" by (auto simp: same_key_def)
  have "set (left_join tbl k dt) = Some ` set (filter (\<lambda>r. row_nurse_id r = Some k \<and> date r = dt) tbl)"
    using Cons by (simp add: left_join_def)
  with ex show ?thesis by (auto simp: same_key_def)
qed

lemma left_join_nonempty: "set (left_join tbl k dt) \<noteq> {}"
  by (auto simp: set_left_join)

lemma roster_rows:
  "dt \<noteq> [] \<Longrightarrow>
   \<exists>rows. getRosterForDate coll (Some dt) d = Inr rows \<and>
     set rows = {joined n p a | n p a. n \<in> set (Nurses d)
                   \<and> p \<in> set (left_join (Roster_Planned d) (nurse_id n) dt)
                   \<and> a \<in> set (left_join (Roster_Actual d) (nurse_id n) dt)}"
  by (auto simp: getRosterForDate_def set_order_by)

text \<open>The table after an upsert that passed the foreign key.\<close>

lemma upsert_result:
  assumes "k \<in> nurse_id ` set (Nurses d)"
  shows "upsert v (Some k) (Some dt) code w d =
     Inr (set_table v
           (if list_ex (same_key k dt) (table_of v d)
            then map (\<lambda>r. if same_key k dt r then r\<lparr>shift_code := code, ward := w\<rparr> else r) (table_of v d)
            else table_of v d @ [\<lparr>row_nurse_id = Some k, date = dt, shift_code = code, ward = w\<rparr>]) d)"
  using assms by (simp add: upsert_def Let_def)

lemma table_of_set_table: "table_of v (set_table v tbl d) = tbl"
  by (cases v) (simp_all add: table_of_def set_table_def)

lemma table_of_set_table_other: "v \<noteq> u \<Longrightarrow> table_of u (set_table v tbl d) = table_of u d"
  by (cases v; cases u) (simp_all add: table_of_def set_table_def)

lemma Nurses_set_table: "Nurses (set_table v tbl d) = Nurses d"
  by (cases v) (simp_all add: set_table_def)

lemma same_key_update: "same_key k dt (r\<lparr>shift_code := code, ward := w\<rparr>) = same_key k dt r"
  by (simp add: same_key_def)

lemma upserted_rows:
  fixes tbl k dt code w
  defines "f \<equiv> (\<lambda>r. if same_key k dt r then r\<lparr>shift_code := code, ward := w\<rparr> else r)"
  defines "tbl' \<equiv> (if list_ex (same_key k dt) tbl then map f tbl
            else tbl @ [\<lparr>row_nurse_id = Some k, date = dt, shift_code = code, ward = w\<rparr>])"
  shows "\<exists>r \<in> set tbl'. same_key k dt r"
    and "\<forall>r \<in> set tbl'. same_key k dt r \<longrightarrow> shift_code r = code \<and> ward r = w"
proof -
  have fkey: "\<And>r. same_key k dt (f r) = same_key k dt r"
    by (simp add: f_def same_key_def)
  have fval: "\<And>r. same_key k dt r \<Longrightarrow> shift_code (f r) = code \<and> ward (f r) = w"
    by (simp add: f_def)
  show "\<exists>r \<in> set tbl'. same_key k dt r"
  proof (cases "list_ex (same_key k dt) tbl")
    case True
    then obtain r where r: "r \<in> set tbl" "same_key k dt r" by (auto simp: list_ex_iff)
    from r(1) have "f r \<in> f ` set tbl" by (rule imageI)
    with True have "f r \<in> set tbl'" by (simp add: tbl'_def)
    moreover from r(2) have "same_key k dt (f r)" by (simp only: fkey)
    ultimately show ?thesis ..
  next
    case False
    then have "\<lparr>row_nurse_id = Some k, date = dt, shift_code = code, ward = w\<rparr> \<in> set tbl'"
      by (simp add: tbl'_def)
    moreover have "same_key k dt \<lparr>row_nurse_id = Some k, date = dt, shift_code = code, ward = w\<rparr>"
      by (simp add: same_key_def)
    ultimately show ?thesis ..
  qed
  show "\<forall>r \<in> set tbl'. same_key k dt r \<longrightarrow> shift_code r = code \<and> ward r = w"
  proof (intro ballI impI)
    fix r
    assume r: "r \<in> set tbl'" and key: "same_key k dt r"
    show "shift_code r = code \<and> ward r = w"
    proof (cases "list_ex (same_key k dt) tbl")
      case True
      with r obtain r0 where r0: "r = f r0" by (auto simp: tbl'_def)
      with key have "same_key k dt r0" by (simp only: fkey)
      then show ?thesis unfolding r0 by (rule fval)
    next
      case False
      with r have "r \<in> set tbl \<or> r = \<lparr>row_nurse_id = Some k, date = dt, shift_code = code, ward = w\<rparr>"
        by (auto simp: tbl'_def)
      moreover from False key have "r \<notin> set tbl" by (auto simp: list_ex_iff)
      ultimately show ?thesis by auto
    qed
  qed
qed

lemma key_count_map:
  "key_count (map (\<lambda>r. if same_key k dt r then r\<lparr>shift_code := code, ward := w\<rparr> else r) tbl) k' dt' =
   key_count tbl k' dt'"
  unfolding key_count_def
  by (induction tbl) (auto simp: same_key_def)

lemma key_count_zero: "(key_count tbl k dt = 0) = (\<not> list_ex (same_key k dt) tbl)"
  by (auto simp: key_count_def list_ex_iff filter_empty_conv)

lemma upserted_count:
  fixes tbl k dt code w
  defines "tbl' \<equiv> (if list_ex (same_key k dt) tbl
            then map (\<lambda>r. if same_key k dt r then r\<lparr>shift_code := code, ward := w\<rparr> else r) tbl
            else tbl @ [\<lparr>row_nurse_id = Some k, date = dt, shift_code = code, ward = w\<rparr>])"
  shows "key_count tbl' k dt = (if key_count tbl k dt = 0 then 1 else key_count tbl k dt)"
    and "(k', dt') \<noteq> (k, dt) \<Longrightarrow> key_count tbl' k' dt' = key_count tbl k' dt'"
    and "list_ex (same_key k dt) tbl \<Longrightarrow> length tbl' = length tbl"
proof -
  show "key_count tbl' k dt = (if key_count tbl k dt = 0 then 1 else key_count tbl k dt)"
  proof (cases "list_ex (same_key k dt) tbl")
    case True
    then show ?thesis using key_count_zero [of tbl k dt] by (simp add: tbl'_def key_count_map)
  next
    case False
    then have "key_count tbl k dt = 0" by (simp add: key_count_zero)
    with False show ?thesis by (simp add: tbl'_def key_count_def same_key_def)
  qed
  show "(k', dt') \<noteq> (k, dt) \<Longrightarrow> key_count tbl' k' dt' = key_count tbl k' dt'"
    by (auto simp: tbl'_def key_count_map) (auto simp: key_count_def same_key_def)
  show "list_ex (same_key k dt) tbl \<Longrightarrow> length tbl' = length tbl"
    by (simp add: tbl'_def)
qed

lemma truthy_text: "truthy dv \<Longrightarrow> pg_text dv \<noteq> None"
  by (cases dv) simp_all

subsection \<open>A batch of upserts\<close>

lemma upsert_Nurses: "upsert v nid dt code w d = Inr d' \<Longrightarrow> Nurses d' = Nurses d"
  by (auto simp: upsert_def Let_def Nurses_set_table split: option.splits if_splits)

lemma run_entry_Nurses: "run_entry v dv x d = Inr d' \<Longrightarrow> Nurses d' = Nurses d"
  by (auto simp: run_entry_def split: sum.splits dest: upsert_Nurses)

lemma run_entry_error:
  assumes "truthy dv"
  shows "(run_entry v dv x d = Inl err) = (entry_error (Nurses d) x = Some err)"
proof -
  from assms obtain dt where "pg_text dv = Some dt" using truthy_text by fastforce
  then show ?thesis
    by (auto simp: run_entry_def entry_error_def upsert_def Let_def split: sum.splits option.splits)
qed

lemma exec_entry_ok:
  assumes "truthy dv" and "entry_error (Nurses (fst st)) x = None"
  shows "\<exists>d'. run_entry v dv x (fst st) = Inr d' \<and> exec_entry v dv st x = (d', snd st)
           \<and> Nurses d' = Nurses (fst st)"
proof (cases "run_entry v dv x (fst st)")
  case (Inl err)
  with run_entry_error [OF assms(1), of v x "fst st" err] assms(2) show ?thesis by simp
next
  case (Inr d')
  with run_entry_Nurses [OF Inr] show ?thesis by (simp add: exec_entry_def)
qed

lemma exec_entry_fails:
  assumes "truthy dv" and "entry_error (Nurses (fst st)) x = Some err"
  shows "exec_entry v dv st x = (fst st, snd st @ [err])"
  using run_entry_error [OF assms(1), of v x "fst st" err] assms(2)
  by (simp add: exec_entry_def)

lemma batch_result:
  assumes "truthy dv" and "Nurses (fst st) = ns"
  shows "foldl (exec_entry v dv) st xs =
     (fst (foldl (exec_entry v dv) (fst st, []) (filter (entry_ok ns) xs)),
      snd st @ List.map_filter (entry_error ns) xs)
     \<and> snd (foldl (exec_entry v dv) (fst st, []) (filter (entry_ok ns) xs)) = []"
  using assms(2)
proof (induction xs arbitrary: st)
  case Nil
  show ?case by (simp add: List.map_filter_simps)
next
  case (Cons x xs)
  show ?case
  proof (cases "entry_error ns x")
    case None
    with Cons.prems have "entry_error (Nurses (fst st)) x = None" by simp
    from exec_entry_ok [OF assms(1) this, of v]
    obtain d' where step: "exec_entry v dv st x = (d', snd st)" and run: "run_entry v dv x (fst st) = Inr d'"
      and ns: "Nurses d' = Nurses (fst st)" by blast
    from run have step0: "exec_entry v dv (fst st, []) x = (d', [])" by (simp add: exec_entry_def)
    from ns Cons.prems have "Nurses (fst (d', snd st)) = ns" by simp
    from Cons.IH [OF this] None step step0 show ?thesis
      by (simp add: entry_ok_def List.map_filter_simps)
  next
    case (Some err)
    with Cons.prems have "entry_error (Nurses (fst st)) x = Some err" by simp
    from exec_entry_fails [OF assms(1) this, of v]
    have step: "exec_entry v dv st x = (fst st, snd st @ [err])" .
    from Cons.prems have "Nurses (fst (fst st, snd st @ [err])) = ns" by simp
    from Cons.IH [OF this] Some step show ?thesis
      by (simp add: entry_ok_def List.map_filter_simps)
  qed
qed

lemma first_error:
  "\<exists>x \<in> set xs. entry_error ns x \<noteq> None \<Longrightarrow>
   \<exists>x err rest. find (\<lambda>x. entry_error ns x \<noteq> None) xs = Some x \<and> entry_error ns x = Some err
       \<and> List.map_filter (entry_error ns) xs = err # rest"
proof (induction xs)
  case Nil
  then show ?case by simp
next
  case (Cons a xs)
  show ?case
  proof (cases "entry_error ns a")
    case None
    with Cons.prems have "\<exists>x \<in> set xs. entry_error ns x \<noteq> None" by auto
    from Cons.IH [OF this] None show ?thesis by (simp add: List.map_filter_simps)
  next
    case (Some err)
    then show ?thesis by (simp add: List.map_filter_simps)
  qed
qed

section \<open>The claims about the report\<close>

lemma planned_work_codes: "js_includes plannedWorkCodes x = (x \<in> Some ` working_codes)"
  by (cases x) (auto simp: js_includes_def plannedWorkCodes_def working_codes_def)

lemma actual_leave_codes: "js_includes actualLeaveCodes x = (x \<in> Some ` leave_codes)"
  by (cases x) (auto simp: js_includes_def actualLeaveCodes_def leave_codes_def)

lemma nurse_entry:
  assumes "n \<in> set ns"
  shows "\<exists>st e w acc. fill_dataMap dim ns P A = Inr st \<and> fst st (nurse_id n) = Some e
     \<and> (\<forall>d. shifts e d = cell_at (fst st) (nurse_id n) d)
     \<and> build_report dim ns P A = (Inr w, [])
     \<and> day_loop (fst st) n dim 1 init_acc = Inr acc
     \<and> Data (make_row n dim acc) \<in> set (sheet_rows w)"
proof -
  obtain st where st: "fill_dataMap dim ns P A = Inr st" by (simp add: fill_dataMap_eq)
  from assms have "fst st (nurse_id n) \<noteq> None"
    using fill_dataMap_dom [OF st, of "nurse_id n"] by auto
  then obtain e where e: "fst st (nurse_id n) = Some e" by auto
  from day_loop_total [where dm = "fst st" and n = n and e = e, OF e]
  obtain acc where acc: "day_loop (fst st) n dim 1 init_acc = Inr acc" by blast
  have "\<forall>m \<in> set ns. fst st (nurse_id m) \<noteq> None"
    using fill_dataMap_dom [OF st] by auto
  from nurse_rows_total [OF this] obtain out where out: "nurse_rows (fst st) dim 0 ns [] = Inr out"
    by blast
  from nurse_rows_has_row [OF out assms acc] have row: "Data (make_row n dim acc) \<in> set out" .
  from st out fill_dataMap_log [OF st]
  have "build_report dim ns P A = (Inr \<lparr>header = columns dim, sheet_rows = out\<rparr>, [])"
    by (simp add: build_report_def)
  with st e acc row show ?thesis
    by (auto simp: cell_at_def)
qed

lemma day_step_increments:
  "totalPlannedShifts (day_step (Some c) d acc0) =
     totalPlannedShifts acc0 + (if planned c \<in> Some ` working_codes then 1 else 0) \<and>
   totalDeviations (day_step (Some c) d acc0) =
     totalDeviations acc0 +
       (if planned c \<in> Some ` working_codes \<and> actual c \<in> Some ` leave_codes then 1 else 0)"
  by (simp add: day_step_def Let_def planned_work_codes actual_leave_codes)

text \<open>
  C1. In the report, for every nurse of the fetched list the loop over the days ends, and
  its two counters are: the number of days of the month whose cell has a planned code
  among A, M, N, G; and the number of those days whose cell also has an actual code among
  WO, NO, SO, PL, SL, NH, PH. One day adds exactly one to a counter when its condition
  holds, and nothing otherwise.
\<close>

theorem report_counts:
  assumes "n \<in> set ns"
  shows "\<exists>st e acc. fill_dataMap dim ns P A = Inr st \<and> fst st (nurse_id n) = Some e
     \<and> day_loop (fst st) n dim 1 init_acc = Inr acc
     \<and> totalPlannedShifts acc =
         int (card {d. 1 \<le> d \<and> d \<le> dim \<and>
                (\<exists>c. shifts e d = Some c \<and> planned c \<in> Some ` working_codes)})
     \<and> totalDeviations acc =
         int (card {d. 1 \<le> d \<and> d \<le> dim \<and>
                (\<exists>c. shifts e d = Some c \<and> planned c \<in> Some ` working_codes
                     \<and> actual c \<in> Some ` leave_codes)})
     \<and> (\<forall>c d acc0.
           totalPlannedShifts (day_step (Some c) d acc0) =
             totalPlannedShifts acc0 + (if planned c \<in> Some ` working_codes then 1 else 0) \<and>
           totalDeviations (day_step (Some c) d acc0) =
             totalDeviations acc0 +
               (if planned c \<in> Some ` working_codes \<and> actual c \<in> Some ` leave_codes
                then 1 else 0))"
proof -
  from nurse_entry [OF assms, of dim P A] obtain st e acc where
    st: "fill_dataMap dim ns P A = Inr st" and e: "fst st (nurse_id n) = Some e"
    and acc: "day_loop (fst st) n dim 1 init_acc = Inr acc" by blast
  from day_loop_counts [where dm = "fst st" and n = n and e = e, OF e acc]
  have "totalPlannedShifts acc = int (card {d. 1 \<le> d \<and> d \<le> dim \<and> cell_planned_work e d})"
    and "totalDeviations acc = int (card {d. 1 \<le> d \<and> d \<le> dim \<and> cell_deviation e d})"
    by (simp_all add: init_acc_def)
  then have "totalPlannedShifts acc =
         int (card {d. 1 \<le> d \<and> d \<le> dim \<and>
                (\<exists>c. shifts e d = Some c \<and> planned c \<in> Some ` working_codes)})"
    and "totalDeviations acc =
         int (card {d. 1 \<le> d \<and> d \<le> dim \<and>
                (\<exists>c. shifts e d = Some c \<and> planned c \<in> Some ` working_codes
                     \<and> actual c \<in> Some ` leave_codes)})"
    by (simp_all add: cell_planned_work_def cell_deviation_def planned_work_codes actual_leave_codes)
  with st e acc day_step_increments show ?thesis by blast
qed

theorem report_counts_witness:
  "nurse_ann \<in> set [nurse_ann] \<and>
   (\<exists>st e acc. fill_dataMap 31 [nurse_ann] [row_for 1 ''2025-07-01'' ''M''] [row_for 1 ''2025-07-01'' ''SL''] = Inr st
     \<and> fst st (nurse_id nurse_ann) = Some e
     \<and> day_loop (fst st) nurse_ann 31 1 init_acc = Inr acc
     \<and> totalPlannedShifts acc =
         int (card {d. 1 \<le> d \<and> d \<le> 31 \<and>
                (\<exists>c. shifts e d = Some c \<and> planned c \<in> Some ` working_codes)})
     \<and> totalDeviations acc =
         int (card {d. 1 \<le> d \<and> d \<le> 31 \<and>
                (\<exists>c. shifts e d = Some c \<and> planned c \<in> Some ` working_codes
                     \<and> actual c \<in> Some ` leave_codes)}))"
proof (rule conjI)
  show "nurse_ann \<in> set [nurse_ann]" by simp
  then show "\<exists>st e acc. fill_dataMap 31 [nurse_ann] [row_for 1 ''2025-07-01'' ''M''] [row_for 1 ''2025-07-01'' ''SL''] = Inr st
     \<and> fst st (nurse_id nurse_ann) = Some e
     \<and> day_loop (fst st) nurse_ann 31 1 init_acc = Inr acc
     \<and> totalPlannedShifts acc =
         int (card {d. 1 \<le> d \<and> d \<le> 31 \<and>
                (\<exists>c. shifts e d = Some c \<and> planned c \<in> Some ` working_codes)})
     \<and> totalDeviations acc =
         int (card {d. 1 \<le> d \<and> d \<le> 31 \<and>
                (\<exists>c. shifts e d = Some c \<and> planned c \<in> Some ` working_codes
                     \<and> actual c \<in> Some ` leave_codes)})"
    using report_counts [of nurse_ann "[nurse_ann]" 31 "[row_for 1 ''2025-07-01'' ''M'']"
        "[row_for 1 ''2025-07-01'' ''SL'']"]
    by blast
qed

lemma displayCode_eq:
  "displayCode c =
     (if nonempty_code (actual c) then the (actual c)
      else if nonempty_code (planned c) then the (planned c) else [])"
  by (auto simp: displayCode_def nonempty_code_def split: option.splits list.splits)

lemma day_cells_nth:
  assumes "1 \<le> d" and "d \<le> dim"
  shows "day_cells (make_row n dim acc) ! nat (d - 1) = day_value acc d"
proof -
  from assms have len: "nat (d - 1) < length [1..dim]" by simp
  from assms have "[1..dim] ! nat (d - 1) = 1 + int (nat (d - 1))"
    by (intro nth_upto) simp
  with assms have "[1..dim] ! nat (d - 1) = d" by simp
  with len show ?thesis by (simp add: make_row_def)
qed

lemma day_loop_values:
  assumes "dm (nurse_id n) = Some e" and "day_loop dm n dim 1 init_acc = Inr acc"
    and "1 \<le> d" and "d \<le> dim"
  shows "day_value acc d = cell_display e d"
  using day_loop_counts [where dm = dm and n = n and e = e, OF assms(1) assms(2)] assms(3,4)
  by (simp add: day_value_def)

lemma report_cell:
  assumes "n \<in> set ns" and "1 \<le> d" and "d \<le> dim"
  shows "\<exists>st e c w acc. fill_dataMap dim ns P A = Inr st \<and> fst st (nurse_id n) = Some e
      \<and> shifts e d = Some c
      \<and> c = \<lparr>planned = latest_code (Some []) P (nurse_id n) d,
                actual = latest_code (Some []) A (nurse_id n) d\<rparr>
      \<and> build_report dim ns P A = (Inr w, [])
      \<and> day_loop (fst st) n dim 1 init_acc = Inr acc
      \<and> Data (make_row n dim acc) \<in> set (sheet_rows w)
      \<and> day_cells (make_row n dim acc) ! nat (d - 1) =
          (if nonempty_code (actual c) then the (actual c)
           else if nonempty_code (planned c) then the (planned c) else [])"
proof -
  from nurse_entry [OF assms(1), of dim P A] obtain st e w acc where
    st: "fill_dataMap dim ns P A = Inr st" and e: "fst st (nurse_id n) = Some e"
    and sh: "\<forall>d. shifts e d = cell_at (fst st) (nurse_id n) d"
    and w: "build_report dim ns P A = (Inr w, [])"
    and acc: "day_loop (fst st) n dim 1 init_acc = Inr acc"
    and row: "Data (make_row n dim acc) \<in> set (sheet_rows w)" by blast
  let ?c = "\<lparr>planned = latest_code (Some []) P (nurse_id n) d,
             actual = latest_code (Some []) A (nurse_id n) d\<rparr>"
  from sh assms have c: "shifts e d = Some ?c"
    by (simp add: fill_dataMap_cell [OF st])
  have "day_cells (make_row n dim acc) ! nat (d - 1) = day_value acc d"
    using assms(2,3) by (rule day_cells_nth)
  also have "\<dots> = cell_display e d"
    using e acc assms(2,3) by (rule day_loop_values)
  also have "\<dots> = displayCode ?c" using c by (simp add: cell_display_def)
  finally have "day_cells (make_row n dim acc) ! nat (d - 1) =
          (if nonempty_code (actual ?c) then the (actual ?c)
           else if nonempty_code (planned ?c) then the (planned ?c) else [])"
    by (simp only: displayCode_eq)
  with st e c w acc row show ?thesis by blast
qed

text \<open>A month has 28 to 31 days.\<close>

lemma month_length_le: "month_length y m \<le> 31"
  by (simp add: month_length_def)

lemma month_length_ge: "28 \<le> month_length y m"
  by (simp add: month_length_def)

lemma daysInMonth_range: "daysInMonth month = Some d \<Longrightarrow> 28 \<le> d \<and> d \<le> 31"
  using month_length_le month_length_ge
  by (auto simp: daysInMonth_def last_day_before_def Let_def
      split: list.splits option.splits if_splits)

lemma july_2025: "daysInMonth ''2025-07'' = Some 31"
  by code_simp

lemma scenario_report:
  "buildReport ''2025-07'' [nurse_ann] [row_for 1 ''2025-07-01'' ''M''] [row_for 1 ''2025-07-01'' ''SL''] =
     Some (Inr \<lparr>header = columns 31,
                sheet_rows = [Data \<lparr>name = ''Ann'', day_cells = ''SL'' # replicate 30 [],
                                     deviation = ''100.0%'', filled = True # replicate 30 False\<rparr>]\<rparr>,
           [])"
  by code_simp

lemma scenario_counts:
  "(case fill_dataMap 31 [nurse_ann] [row_for 1 ''2025-07-01'' ''M''] [row_for 1 ''2025-07-01'' ''SL''] of
      Inl err \<Rightarrow> None
    | Inr st \<Rightarrow> nurse_counts (fst st) nurse_ann 31) = Some (1, 1)"
  by code_simp

text \<open>
  C3. For every nurse of the fetched list and every day of the month, the cell of the
  nurse's row in the worksheet shows the actual code of the dataMap cell when that is
  neither null nor empty, otherwise the planned code when that is neither null nor empty,
  otherwise the empty string. In the scenario (month 2025-07, one nurse, planned M and
  actual SL on day 1) the month has 31 days, the cell of day 1 shows SL, the two counters
  are 1 and 1, and the deviation cell reads 100.0%.
\<close>

theorem displayed_code:
  "(\<forall>n d. n \<in> set ns \<and> 1 \<le> d \<and> d \<le> dim \<longrightarrow>
      (\<exists>st e c w acc. fill_dataMap dim ns P A = Inr st \<and> fst st (nurse_id n) = Some e
         \<and> shifts e d = Some c
         \<and> build_report dim ns P A = (Inr w, [])
         \<and> day_loop (fst st) n dim 1 init_acc = Inr acc
         \<and> Data (make_row n dim acc) \<in> set (sheet_rows w)
         \<and> day_cells (make_row n dim acc) ! nat (d - 1) =
             (if nonempty_code (actual c) then the (actual c)
              else if nonempty_code (planned c) then the (planned c) else [])))
   \<and> daysInMonth ''2025-07'' = Some 31
   \<and> buildReport ''2025-07'' [nurse_ann] [row_for 1 ''2025-07-01'' ''M'']
        [row_for 1 ''2025-07-01'' ''SL''] =
       Some (Inr \<lparr>header = columns 31,
                  sheet_rows = [Data \<lparr>name = ''Ann'', day_cells = ''SL'' # replicate 30 [],
                                       deviation = ''100.0%'', filled = True # replicate 30 False\<rparr>]\<rparr>,
             [])
   \<and> (\<exists>st. fill_dataMap 31 [nurse_ann] [row_for 1 ''2025-07-01'' ''M'']
              [row_for 1 ''2025-07-01'' ''SL''] = Inr st
          \<and> nurse_counts (fst st) nurse_ann 31 = Some (1, 1))"
proof (intro conjI allI impI)
  fix n d
  assume "n \<in> set ns \<and> 1 \<le> d \<and> d \<le> dim"
  then have n: "n \<in> set ns" and d: "1 \<le> d" "d \<le> dim" by simp_all
  from report_cell [OF n d, of P A]
  show "\<exists>st e c w acc. fill_dataMap dim ns P A = Inr st \<and> fst st (nurse_id n) = Some e
         \<and> shifts e d = Some c
         \<and> build_report dim ns P A = (Inr w, [])
         \<and> day_loop (fst st) n dim 1 init_acc = Inr acc
         \<and> Data (make_row n dim acc) \<in> set (sheet_rows w)
         \<and> day_cells (make_row n dim acc) ! nat (d - 1) =
             (if nonempty_code (actual c) then the (actual c)
              else if nonempty_code (planned c) then the (planned c) else [])"
    by blast
next
  show "daysInMonth ''2025-07'' = Some 31" by (rule july_2025)
next
  show "buildReport ''2025-07'' [nurse_ann] [row_for 1 ''2025-07-01'' ''M'']
        [row_for 1 ''2025-07-01'' ''SL''] =
       Some (Inr \<lparr>header = columns 31,
                  sheet_rows = [Data \<lparr>name = ''Ann'', day_cells = ''SL'' # replicate 30 [],
                                       deviation = ''100.0%'', filled = True # replicate 30 False\<rparr>]\<rparr>,
             [])"
    by (rule scenario_report)
next
  obtain st where st: "fill_dataMap 31 [nurse_ann] [row_for 1 ''2025-07-01'' ''M'']
              [row_for 1 ''2025-07-01'' ''SL''] = Inr st"
    by (simp add: fill_dataMap_eq)
  with scenario_counts have "nurse_counts (fst st) nurse_ann 31 = Some (1, 1)" by simp
  with st show "\<exists>st. fill_dataMap 31 [nurse_ann] [row_for 1 ''2025-07-01'' ''M'']
              [row_for 1 ''2025-07-01'' ''SL''] = Inr st
          \<and> nurse_counts (fst st) nurse_ann 31 = Some (1, 1)" by blast
qed

theorem displayed_code_witness:
  "nurse_ann \<in> set [nurse_ann] \<and> (1 :: int) \<le> 1 \<and> (1 :: int) \<le> 31 \<and>
   (\<exists>st e c w acc.
       fill_dataMap 31 [nurse_ann] [row_for 1 ''2025-07-01'' ''M''] [row_for 1 ''2025-07-01'' ''SL''] = Inr st
     \<and> fst st (nurse_id nurse_ann) = Some e
     \<and> shifts e 1 = Some c
     \<and> build_report 31 [nurse_ann] [row_for 1 ''2025-07-01'' ''M''] [row_for 1 ''2025-07-01'' ''SL''] = (Inr w, [])
     \<and> day_loop (fst st) nurse_ann 31 1 init_acc = Inr acc
     \<and> Data (make_row nurse_ann 31 acc) \<in> set (sheet_rows w)
     \<and> day_cells (make_row nurse_ann 31 acc) ! nat (1 - 1) =
         (if nonempty_code (actual c) then the (actual c)
          else if nonempty_code (planned c) then the (planned c) else []))"
proof -
  have h: "nurse_ann \<in> set [nurse_ann] \<and> (1 :: int) \<le> 1 \<and> (1 :: int) \<le> 31" by simp
  from displayed_code [of "[nurse_ann]" 31 "[row_for 1 ''2025-07-01'' ''M'']"
      "[row_for 1 ''2025-07-01'' ''SL'']"]
  have "\<forall>n d. n \<in> set [nurse_ann] \<and> 1 \<le> d \<and> d \<le> 31 \<longrightarrow>
      (\<exists>st e c w acc.
         fill_dataMap 31 [nurse_ann] [row_for 1 ''2025-07-01'' ''M''] [row_for 1 ''2025-07-01'' ''SL''] = Inr st
       \<and> fst st (nurse_id n) = Some e
       \<and> shifts e d = Some c
       \<and> build_report 31 [nurse_ann] [row_for 1 ''2025-07-01'' ''M''] [row_for 1 ''2025-07-01'' ''SL''] = (Inr w, [])
       \<and> day_loop (fst st) n 31 1 init_acc = Inr acc
       \<and> Data (make_row n 31 acc) \<in> set (sheet_rows w)
       \<and> day_cells (make_row n 31 acc) ! nat (d - 1) =
           (if nonempty_code (actual c) then the (actual c)
            else if nonempty_code (planned c) then the (planned c) else []))"
    by (rule conjunct1)
  with h show ?thesis by blast
qed

subsection \<open>The deviation percentage\<close>

lemma agree_1_8: "list_all row_agrees [1..8]"
  by code_simp

lemma agree_9_15: "list_all row_agrees [9..15]"
  by code_simp

lemma agree_16_20: "list_all row_agrees [16..20]"
  by code_simp

lemma agree_21_24: "list_all row_agrees [21..24]"
  by code_simp

lemma agree_25_28: "list_all row_agrees [25..28]"
  by code_simp

lemma agree_29_31: "list_all row_agrees [29..31]"
  by code_simp

lemma row_agrees_all:
  assumes "1 \<le> s" and "s \<le> 31"
  shows "row_agrees s"
proof -
  from assms have "s \<in> {1..8} \<or> s \<in> {9..15} \<or> s \<in> {16..20} \<or> s \<in> {21..24}
      \<or> s \<in> {25..28} \<or> s \<in> {29..31}"
    by (simp only: atLeastAtMost_iff) arith
  then have "s \<in> set [1..8] \<or> s \<in> set [9..15] \<or> s \<in> set [16..20] \<or> s \<in> set [21..24]
      \<or> s \<in> set [25..28] \<or> s \<in> set [29..31]"
    by (simp only: set_upto)
  with agree_1_8 agree_9_15 agree_16_20 agree_21_24 agree_25_28 agree_29_31
  show ?thesis unfolding list_all_iff by blast
qed

lemma deviation_text_agrees:
  assumes "1 \<le> s" and "s \<le> 31" and "0 \<le> t" and "t \<le> s"
  shows "deviation_text t s = percent_text t s"
proof -
  from row_agrees_all [OF assms(1,2)] have "list_all (agree s) [0..s]"
    by (simp add: row_agrees_def)
  moreover from assms(3,4) have "t \<in> set [0..s]" by simp
  ultimately have "agree s t" unfolding list_all_iff by blast
  then show ?thesis by (simp add: agree_def)
qed

text \<open>
  The number of tenths that \<open>percent_text\<close> writes lies within half a tenth of the exact
  percentage.
\<close>

lemma percent_text_nearest:
  fixes s t :: int
  assumes "0 < s"
  shows "2 * s * ((2000 * t + s) div (2 * s)) \<le> 2000 * t + s
     \<and> 2000 * t + s < 2 * s * ((2000 * t + s) div (2 * s)) + 2 * s"
proof -
  from assms have pos: "0 < 2 * s" by simp
  have "2 * s * ((2000 * t + s) div (2 * s)) + (2000 * t + s) mod (2 * s) = 2000 * t + s"
    by (rule mult_div_mod_eq)
  moreover from pos have "0 \<le> (2000 * t + s) mod (2 * s)" by (rule pos_mod_sign)
  moreover from pos have "(2000 * t + s) mod (2 * s) < 2 * s" by (rule pos_mod_bound)
  ultimately show ?thesis by linarith
qed

lemma zero_percent: "toFixed1 (dbl_of_int 0) = ''0.0''"
  by code_simp

lemma deviation_text_zero: "deviation_text t 0 = ''0.0%''"
  by (simp add: deviation_text_def zero_percent)

lemma card_days_le:
  assumes "0 \<le> dim"
  shows "int (card {d. 1 \<le> d \<and> d \<le> dim \<and> Q d}) \<le> dim"
proof -
  have "card {d. 1 \<le> d \<and> d \<le> dim \<and> Q d} \<le> card {1..dim}"
    by (rule card_mono) auto
  with assms show ?thesis by simp
qed

lemma card_days_mono:
  assumes "\<And>d. Q d \<Longrightarrow> R d"
  shows "card {d::int. 1 \<le> d \<and> d \<le> dim \<and> Q d} \<le> card {d. 1 \<le> d \<and> d \<le> dim \<and> R d}"
proof (rule card_mono)
  show "finite {d. 1 \<le> d \<and> d \<le> dim \<and> R d}"
    by (rule finite_subset [of _ "{1..dim}"]) auto
  show "{d. 1 \<le> d \<and> d \<le> dim \<and> Q d} \<subseteq> {d. 1 \<le> d \<and> d \<le> dim \<and> R d}"
    using assms by auto
qed

lemma counts_bounds:
  assumes "dm (nurse_id n) = Some e" and "day_loop dm n dim 1 init_acc = Inr acc"
  shows "0 \<le> totalDeviations acc \<and> totalDeviations acc \<le> totalPlannedShifts acc
     \<and> (totalPlannedShifts acc \<le> dim \<or> totalPlannedShifts acc = 0)"
proof -
  from day_loop_counts [where dm = dm and n = n and e = e, OF assms]
  have p: "totalPlannedShifts acc = int (card {d. 1 \<le> d \<and> d \<le> dim \<and> cell_planned_work e d})"
    and t: "totalDeviations acc = int (card {d. 1 \<le> d \<and> d \<le> dim \<and> cell_deviation e d})"
    by (simp_all add: init_acc_def)
  have "card {d. 1 \<le> d \<and> d \<le> dim \<and> cell_deviation e d}
      \<le> card {d. 1 \<le> d \<and> d \<le> dim \<and> cell_planned_work e d}"
    by (rule card_days_mono) (auto simp: cell_deviation_def cell_planned_work_def)
  with p t have le: "totalDeviations acc \<le> totalPlannedShifts acc" by simp
  have "totalPlannedShifts acc \<le> dim \<or> totalPlannedShifts acc = 0"
  proof (cases "0 \<le> dim")
    case True
    from card_days_le [OF True, of "cell_planned_work e"] p show ?thesis by simp
  next
    case False
    then have "{d. 1 \<le> d \<and> d \<le> dim \<and> cell_planned_work e d} = {}" by auto
    with p show ?thesis by simp
  qed
  with le t show ?thesis by simp
qed

lemma no_rows_cells:
  assumes st: "fill_dataMap dim ns P A = Inr st" and n: "n \<in> set ns"
    and none: "\<forall>r \<in> set P \<union> set A. row_nurse_id r \<noteq> Some (nurse_id n)"
  shows "cell_at (fst st) (nurse_id n) d = blank_shifts dim d"
proof -
  from none have "\<forall>x \<in> set P. \<not> targets x (nurse_id n) d" and "\<forall>x \<in> set A. \<not> targets x (nurse_id n) d"
    by (auto simp: targets_def)
  then have "latest_code (Some []) P (nurse_id n) d = Some []"
    and "latest_code (Some []) A (nurse_id n) d = Some []"
    by (simp_all add: latest_code_no_target)
  with n show ?thesis
    by (simp add: fill_dataMap_cell [OF st] blank_shifts_def empty_cell_def)
qed

lemma blank_row:
  assumes e: "dm (nurse_id n) = Some e" and acc: "day_loop dm n dim 1 init_acc = Inr acc"
    and blank: "\<forall>d. shifts e d = blank_shifts dim d"
  shows "day_cells (make_row n dim acc) = map (\<lambda>d. []) [1..dim]
     \<and> deviation (make_row n dim acc) = ''0.0%''"
proof -
  from day_loop_counts [where dm = dm and n = n and e = e, OF e acc]
  have p: "totalPlannedShifts acc = int (card {d. 1 \<le> d \<and> d \<le> dim \<and> cell_planned_work e d})"
    and ds: "days acc = (\<lambda>d. if 1 \<le> d \<and> d \<le> dim then Some (cell_display e d) else days init_acc d)"
    by (simp_all add: init_acc_def)
  have "\<And>d. \<not> cell_planned_work e d"
    using blank
    by (auto simp: cell_planned_work_def blank_shifts_def empty_cell_def js_includes_def
        plannedWorkCodes_def split: if_splits)
  then have "{d. 1 \<le> d \<and> d \<le> dim \<and> cell_planned_work e d} = {}" by simp
  with p have zero: "totalPlannedShifts acc = 0" by simp
  have "\<And>d. 1 \<le> d \<Longrightarrow> d \<le> dim \<Longrightarrow> day_value acc d = []"
    using blank
    by (simp add: day_value_def ds cell_display_def blank_shifts_def empty_cell_def displayCode_def)
  then have "map (day_value acc) [1..dim] = map (\<lambda>d. []) [1..dim]"
    by (intro map_cong) auto
  with zero show ?thesis
    by (simp add: make_row_def deviation_text_zero)
qed

text \<open>
  C4. For every nurse of the fetched list, in a month of at most 31 days, the row of the
  nurse is in the worksheet and its deviation cell is: the text 0.0% when the
  planned-shift count is 0, and otherwise the deviation count times 100 divided by the
  planned-shift count, rounded to the nearest tenth, with one decimal and a percent sign
  (the doubles of the program give the same digits as the exact quotient). A nurse for
  whom no planned row and no actual row was fetched has an empty string in every day cell
  and 0.0% in the deviation cell.
\<close>

theorem deviation_column:
  assumes "n \<in> set ns" and "dim \<le> 31"
  shows "\<exists>w st acc. build_report dim ns P A = (Inr w, []) \<and> fill_dataMap dim ns P A = Inr st
     \<and> day_loop (fst st) n dim 1 init_acc = Inr acc
     \<and> Data (make_row n dim acc) \<in> set (sheet_rows w)
     \<and> deviation (make_row n dim acc) =
         (if totalPlannedShifts acc = 0 then ''0.0%''
          else percent_text (totalDeviations acc) (totalPlannedShifts acc))
     \<and> ((\<forall>r \<in> set P \<union> set A. row_nurse_id r \<noteq> Some (nurse_id n)) \<longrightarrow>
           day_cells (make_row n dim acc) = map (\<lambda>d. []) [1..dim]
           \<and> deviation (make_row n dim acc) = ''0.0%'')"
proof -
  from nurse_entry [OF assms(1), of dim P A] obtain st e w acc where
    st: "fill_dataMap dim ns P A = Inr st" and e: "fst st (nurse_id n) = Some e"
    and sh: "\<forall>d. shifts e d = cell_at (fst st) (nurse_id n) d"
    and w: "build_report dim ns P A = (Inr w, [])"
    and acc: "day_loop (fst st) n dim 1 init_acc = Inr acc"
    and row: "Data (make_row n dim acc) \<in> set (sheet_rows w)" by blast
  from counts_bounds [where dm = "fst st" and n = n and e = e, OF e acc] assms(2)
  have b: "0 \<le> totalDeviations acc" "totalDeviations acc \<le> totalPlannedShifts acc"
    "totalPlannedShifts acc \<le> 31" by auto
  have dev: "deviation (make_row n dim acc) =
         (if totalPlannedShifts acc = 0 then ''0.0%''
          else percent_text (totalDeviations acc) (totalPlannedShifts acc))"
  proof (cases "totalPlannedShifts acc = 0")
    case True
    then show ?thesis by (simp add: make_row_def deviation_text_zero)
  next
    case False
    with b have "1 \<le> totalPlannedShifts acc" by simp
    from deviation_text_agrees [OF this b(3) b(1) b(2)] False show ?thesis
      by (simp add: make_row_def)
  qed
  have "(\<forall>r \<in> set P \<union> set A. row_nurse_id r \<noteq> Some (nurse_id n)) \<longrightarrow>
           day_cells (make_row n dim acc) = map (\<lambda>d. []) [1..dim]
           \<and> deviation (make_row n dim acc) = ''0.0%''"
  proof
    assume none: "\<forall>r \<in> set P \<union> set A. row_nurse_id r \<noteq> Some (nurse_id n)"
    have "\<forall>d. shifts e d = blank_shifts dim d"
      using sh no_rows_cells [OF st assms(1) none] by simp
    with e acc show "day_cells (make_row n dim acc) = map (\<lambda>d. []) [1..dim]
           \<and> deviation (make_row n dim acc) = ''0.0%''"
      by (rule blank_row)
  qed
  with w st acc row dev show ?thesis by blast
qed

theorem deviation_column_witness:
  "nurse_bea \<in> set [nurse_ann, nurse_bea] \<and> (31 :: int) \<le> 31 \<and>
   row_nurse_id (row_for 1 ''2025-07-01'' ''M'') \<noteq> Some (nurse_id nurse_bea) \<and>
   row_nurse_id (row_for 1 ''2025-07-01'' ''SL'') \<noteq> Some (nurse_id nurse_bea) \<and>
   (\<exists>w st acc.
      build_report 31 [nurse_ann, nurse_bea] [row_for 1 ''2025-07-01'' ''M''] [row_for 1 ''2025-07-01'' ''SL''] = (Inr w, [])
    \<and> fill_dataMap 31 [nurse_ann, nurse_bea] [row_for 1 ''2025-07-01'' ''M''] [row_for 1 ''2025-07-01'' ''SL''] = Inr st
    \<and> day_loop (fst st) nurse_bea 31 1 init_acc = Inr acc
    \<and> Data (make_row nurse_bea 31 acc) \<in> set (sheet_rows w)
    \<and> day_cells (make_row nurse_bea 31 acc) = map (\<lambda>d. []) [1..31]
    \<and> deviation (make_row nurse_bea 31 acc) = ''0.0%'')"
proof -
  have h1: "nurse_bea \<in> set [nurse_ann, nurse_bea]" by simp
  have h2: "(31 :: int) \<le> 31" by simp
  have h3: "\<forall>r \<in> set [row_for 1 ''2025-07-01'' ''M''] \<union> set [row_for 1 ''2025-07-01'' ''SL''].
       row_nurse_id r \<noteq> Some (nurse_id nurse_bea)"
    by (simp add: row_for_def nurse_bea_def)
  from deviation_column [OF h1 h2, of "[row_for 1 ''2025-07-01'' ''M'']" "[row_for 1 ''2025-07-01'' ''SL'']"] h3
  have "\<exists>w st acc.
      build_report 31 [nurse_ann, nurse_bea] [row_for 1 ''2025-07-01'' ''M''] [row_for 1 ''2025-07-01'' ''SL''] = (Inr w, [])
    \<and> fill_dataMap 31 [nurse_ann, nurse_bea] [row_for 1 ''2025-07-01'' ''M''] [row_for 1 ''2025-07-01'' ''SL''] = Inr st
    \<and> day_loop (fst st) nurse_bea 31 1 init_acc = Inr acc
    \<and> Data (make_row nurse_bea 31 acc) \<in> set (sheet_rows w)
    \<and> day_cells (make_row nurse_bea 31 acc) = map (\<lambda>d. []) [1..31]
    \<and> deviation (make_row nurse_bea 31 acc) = ''0.0%''"
    by blast
  moreover from h3 have "row_nurse_id (row_for 1 ''2025-07-01'' ''M'') \<noteq> Some (nurse_id nurse_bea)"
    and "row_nurse_id (row_for 1 ''2025-07-01'' ''SL'') \<noteq> Some (nurse_id nurse_bea)"
    by simp_all
  ultimately show ?thesis using h1 h2 by blast
qed

subsection \<open>Rows with a date that has no day\<close>

text \<open>
  C8, at a fetched planned row whose date is written 20250701 (a text that PostgreSQL
  casts to a date of July 2025): the row is skipped and the report is the one of a nurse
  without rows, but nothing is logged. The only \<open>console.error\<close> is in the \<open>catch\<close>; the
  \<open>try\<close> block throws nothing, since \<open>parseInt\<close> answers \<open>NaN\<close>; so no row ever adds a line
  to the log.
\<close>

theorem bad_date_row_not_logged:
  "day_of_date ''20250701'' = None
   \<and> build_report 31 [nurse_ann] [row_for 1 ''20250701'' ''M''] [] =
       (Inr \<lparr>header = columns 31,
             sheet_rows = [Data \<lparr>name = ''Ann'', day_cells = replicate 31 [],
                                  deviation = ''0.0%'', filled = replicate 31 False\<rparr>]\<rparr>,
        [])
   \<and> (\<forall>v st p. snd (fill_row v st p) = snd st)"
proof (intro conjI allI)
  show "day_of_date ''20250701'' = None" by code_simp
  show "build_report 31 [nurse_ann] [row_for 1 ''20250701'' ''M''] [] =
       (Inr \<lparr>header = columns 31,
             sheet_rows = [Data \<lparr>name = ''Ann'', day_cells = replicate 31 [],
                                  deviation = ''0.0%'', filled = replicate 31 False\<rparr>]\<rparr>,
        [])"
    by code_simp
  show "\<And>v st p. snd (fill_row v st p) = snd st" by (rule fill_row_log)
qed

subsection \<open>The blank rows between the groups\<close>

text \<open>When no nurse has the group 0, the blank rows of the worksheet are those of the specification.\<close>

lemma nurse_rows_separators:
  assumes "nurse_rows dm dim cg ns ws = Inr out" and "\<forall>n \<in> set ns. group_id n \<noteq> 0"
  shows "map row_label out =
     map row_label ws @
     (case ns of [] \<Rightarrow> [] | n # _ \<Rightarrow> if cg \<noteq> 0 \<and> group_id n \<noteq> cg then [None] else []) @
     with_separators ns"
  using assms
proof (induction ns arbitrary: cg ws)
  case Nil
  then show ?case by simp
next
  case (Cons n ns)
  from Cons.prems(1) obtain acc where
    rest: "nurse_rows dm dim (group_id n) ns
             ((if group_id n \<noteq> cg \<and> cg \<noteq> 0 then ws @ [Blank] else ws) @ [Data (make_row n dim acc)]) = Inr out"
    by (auto simp: Let_def split: sum.splits)
  from Cons.prems(2) have g: "group_id n \<noteq> 0" and gs: "\<forall>m \<in> set ns. group_id m \<noteq> 0" by simp_all
  from Cons.IH [OF rest gs] g show ?case
    by (cases ns) (auto simp: row_label_def make_row_def)
qed

lemma report_separators:
  assumes "\<forall>n \<in> set ns. group_id n \<noteq> 0" and "build_report dim ns P A = (Inr w, log)"
  shows "map row_label (sheet_rows w) = with_separators ns"
proof -
  from assms(2) obtain st out where "nurse_rows (fst st) dim 0 ns [] = Inr out" and "sheet_rows w = out"
    by (auto simp: build_report_def split: sum.splits)
  with nurse_rows_separators [OF this(1) assms(1)] show ?thesis
    by (cases ns) simp_all
qed

text \<open>
  C9, at two nurses of the groups 0 and 1, in the order of the query: no blank row stands
  between them, since \<open>currentGroup\<close> is 0 after the first nurse as it was before her.
  Between the groups 1 and 2 the blank row is there.
\<close>

theorem group_zero_has_no_separator:
  "group_id nurse_zoe = 0 \<and> group_id nurse_ann = 1 \<and> group_id nurse_bea = 2
   \<and> build_report 31 [nurse_zoe, nurse_ann] [] [] =
       (Inr \<lparr>header = columns 31,
             sheet_rows =
               [Data \<lparr>name = ''Zoe'', day_cells = replicate 31 [], deviation = ''0.0%'',
                      filled = replicate 31 False\<rparr>,
                Data \<lparr>name = ''Ann'', day_cells = replicate 31 [], deviation = ''0.0%'',
                      filled = replicate 31 False\<rparr>]\<rparr>,
        [])
   \<and> build_report 31 [nurse_ann, nurse_bea] [] [] =
       (Inr \<lparr>header = columns 31,
             sheet_rows =
               [Data \<lparr>name = ''Ann'', day_cells = replicate 31 [], deviation = ''0.0%'',
                      filled = replicate 31 False\<rparr>,
                Blank,
                Data \<lparr>name = ''Bea'', day_cells = replicate 31 [], deviation = ''0.0%'',
                      filled = replicate 31 False\<rparr>]\<rparr>,
        [])"
  by code_simp

section \<open>The claims about the store\<close>

subsection \<open>The status map\<close>

lemma iso_month_examples:
  "iso_month ''2025-07-01'' = Some ''2025-07''" "iso_month ''2025-07-02'' = Some ''2025-07''"
  by code_simp+










subsection \<open>Creating a nurse\<close>

text \<open>
  C10, as the code has it. A request whose name or group is falsy, the empty name and
  the number 0 among them, is answered with status 400 and the text
  \<open>Name and group are required\<close>, and the store is left as it was. (That no nurse of
  group 0 can be created does not follow.)
\<close>

theorem nurse_creation_rejects_falsy:
  "(\<not> truthy name_v \<or> \<not> truthy group_v \<longrightarrow>
      post_nurses name_v group_v d = (Inl (Http400 ''Name and group are required''), d))
   \<and> post_nurses (JStr []) group_v d = (Inl (Http400 ''Name and group are required''), d)
   \<and> post_nurses name_v (JNum 0) d = (Inl (Http400 ''Name and group are required''), d)"
  by (simp add: post_nurses_def)

theorem nurse_creation_rejects_falsy_witness:
  "\<not> truthy JUndefined
   \<and> post_nurses JUndefined (JNum 2) empty_db = (Inl (Http400 ''Name and group are required''), empty_db)"
  using nurse_creation_rejects_falsy [of JUndefined "JNum 2" empty_db] by simp

text \<open>
  The text "0", which is what the client sends for a group typed as 0, is truthy: the
  nurse is created, and her group number is 0.
\<close>

theorem group_zero_created_counterexample:
  "truthy (JStr ''0'')
   \<and> post_nurses (JStr ''Zoe'') (JStr ''0'') empty_db =
       (Inr \<lparr>new_id = 1, new_name = JStr ''Zoe'', new_group = JStr ''0''\<rparr>,
        \<lparr>Nurses = [\<lparr>nurse_id = 1, full_name = ''Zoe'', group_id = 0\<rparr>],
         Roster_Planned = [], Roster_Actual = [], nurse_seq = 1\<rparr>)"
  by code_simp

subsection \<open>Upsert and read back\<close>

lemma left_join_upserted:
  assumes "\<exists>r \<in> set tbl. same_key k dt r"
    and "\<forall>r \<in> set tbl. same_key k dt r \<longrightarrow> shift_code r = code \<and> ward r = w"
    and "p \<in> set (left_join tbl k dt)"
  shows "Option.bind p shift_code = code \<and> Option.bind p ward = w"
  using assms by (auto simp: set_left_join)

lemma left_join_some: "\<exists>p. p \<in> set (left_join tbl k dt)"
  by (auto simp: set_left_join)

lemma single_upsert:
  assumes id: "pg_int4 (nurseId x) = Inr (Some k)"
    and nurse: "k \<in> nurse_id ` set (Nurses d)"
    and dv: "truthy dv" "pg_text dv = Some dt"
  shows "upsertAssignments v dv (Some [x]) d =
     (Inr (success_text v),
      set_table v
        (if list_ex (same_key k dt) (table_of v d)
         then map (\<lambda>r. if same_key k dt r
                        then r\<lparr>shift_code := pg_text (shift x), ward := pg_text (ward_v x)\<rparr> else r)
                (table_of v d)
         else table_of v d @ [\<lparr>row_nurse_id = Some k, date = dt, shift_code = pg_text (shift x),
                                ward = pg_text (ward_v x)\<rparr>]) d)"
  using id dv upsert_result [OF nurse, of v dt "pg_text (shift x)" "pg_text (ward_v x)"]
  by (simp add: upsertAssignments_def exec_entry_def run_entry_def)

text \<open>
  C6. An upsert of one entry for a nurse who exists, and a date, succeeds. The roster read
  for that date then has a row for the nurse, and every row of the nurse shows the shift
  code and the ward that were sent, in the columns of the variant. Where the table had a
  row of that nurse and date, it is overwritten in place and the table keeps its length;
  where the key was held by at most one row before, it is held by exactly one row after;
  the number of rows of every other key is as before.
\<close>

theorem upsert_round_trip:
  assumes id: "pg_int4 (nurseId x) = Inr (Some k)"
    and nurse: "k \<in> nurse_id ` set (Nurses d)"
    and dv: "truthy dv" "pg_text dv = Some dt" "dt \<noteq> []"
  shows "\<exists>d' rows. upsertAssignments v dv (Some [x]) d = (Inr (success_text v), d')
     \<and> getRosterForDate coll (Some dt) d' = Inr rows
     \<and> (\<exists>row \<in> set rows. view_nurse_id row = k)
     \<and> (\<forall>row \<in> set rows. view_nurse_id row = k \<longrightarrow>
           view_shift v row = pg_text (shift x) \<and> view_ward v row = pg_text (ward_v x))
     \<and> (list_ex (same_key k dt) (table_of v d) \<longrightarrow>
           length (table_of v d') = length (table_of v d))
     \<and> (key_count (table_of v d) k dt \<le> 1 \<longrightarrow> key_count (table_of v d') k dt = 1)
     \<and> (\<forall>k' dt'. (k', dt') \<noteq> (k, dt) \<longrightarrow>
           key_count (table_of v d') k' dt' = key_count (table_of v d) k' dt')"
proof -
  let ?code = "pg_text (shift x)" and ?w = "pg_text (ward_v x)"
  let ?tbl = "if list_ex (same_key k dt) (table_of v d)
         then map (\<lambda>r. if same_key k dt r then r\<lparr>shift_code := ?code, ward := ?w\<rparr> else r)
                (table_of v d)
         else table_of v d @ [\<lparr>row_nurse_id = Some k, date = dt, shift_code = ?code, ward = ?w\<rparr>]"
  let ?d = "set_table v ?tbl d"
  have up: "upsertAssignments v dv (Some [x]) d = (Inr (success_text v), ?d)"
    using id nurse dv(1,2) by (rule single_upsert)
  have tbl: "table_of v ?d = ?tbl" by (rule table_of_set_table)
  have ex: "\<exists>r \<in> set ?tbl. same_key k dt r"
    by (rule upserted_rows(1))
  have all: "\<forall>r \<in> set ?tbl. same_key k dt r \<longrightarrow> shift_code r = ?code \<and> ward r = ?w"
    by (rule upserted_rows(2))
  from roster_rows [OF dv(3), of coll ?d] obtain rows where
    rows: "getRosterForDate coll (Some dt) ?d = Inr rows"
    and set_rows: "set rows = {joined n p a | n p a. n \<in> set (Nurses ?d)
                   \<and> p \<in> set (left_join (Roster_Planned ?d) (nurse_id n) dt)
                   \<and> a \<in> set (left_join (Roster_Actual ?d) (nurse_id n) dt)}"
    by blast
  have has: "\<exists>row \<in> set rows. view_nurse_id row = k"
  proof -
    from nurse obtain n where n: "n \<in> set (Nurses ?d)" "nurse_id n = k"
      by (auto simp: Nurses_set_table)
    obtain p where p: "p \<in> set (left_join (Roster_Planned ?d) (nurse_id n) dt)"
      using left_join_some by blast
    obtain a where a: "a \<in> set (left_join (Roster_Actual ?d) (nurse_id n) dt)"
      using left_join_some by blast
    from n p a have "joined n p a \<in> set rows" unfolding set_rows by blast
    moreover from n have "view_nurse_id (joined n p a) = k" by (simp add: joined_def)
    ultimately show ?thesis ..
  qed
  have shows_code: "\<forall>row \<in> set rows. view_nurse_id row = k \<longrightarrow>
           view_shift v row = ?code \<and> view_ward v row = ?w"
  proof (intro ballI impI)
    fix row
    assume "row \<in> set rows" and k: "view_nurse_id row = k"
    then obtain n p a where row: "row = joined n p a"
      and p: "p \<in> set (left_join (Roster_Planned ?d) (nurse_id n) dt)"
      and a: "a \<in> set (left_join (Roster_Actual ?d) (nurse_id n) dt)"
      unfolding set_rows by blast
    from k row have nk: "nurse_id n = k" by (simp add: joined_def)
    show "view_shift v row = ?code \<and> view_ward v row = ?w"
    proof (cases v)
      case Planned
      with tbl have "Roster_Planned ?d = ?tbl" by (simp add: table_of_def)
      with p nk have "p \<in> set (left_join ?tbl k dt)" by simp
      from left_join_upserted [OF ex all this] Planned row show ?thesis
        by (simp add: view_shift_def view_ward_def joined_def)
    next
      case Actual
      with tbl have "Roster_Actual ?d = ?tbl" by (simp add: table_of_def)
      with a nk have "a \<in> set (left_join ?tbl k dt)" by simp
      from left_join_upserted [OF ex all this] Actual row show ?thesis
        by (simp add: view_shift_def view_ward_def joined_def)
    qed
  qed
  have len: "list_ex (same_key k dt) (table_of v d) \<longrightarrow> length (table_of v ?d) = length (table_of v d)"
    unfolding tbl by simp
  have cnt: "key_count ?tbl k dt =
      (if key_count (table_of v d) k dt = 0 then 1 else key_count (table_of v d) k dt)"
    by (rule upserted_count(1))
  have one: "key_count (table_of v d) k dt \<le> 1 \<longrightarrow> key_count (table_of v ?d) k dt = 1"
  proof
    assume "key_count (table_of v d) k dt \<le> 1"
    then have "key_count (table_of v d) k dt = 0 \<or> key_count (table_of v d) k dt = 1" by arith
    then have "key_count ?tbl k dt = 1" unfolding cnt by auto
    then show "key_count (table_of v ?d) k dt = 1" by (simp only: tbl)
  qed
  have others: "\<forall>k' dt'. (k', dt') \<noteq> (k, dt) \<longrightarrow>
           key_count (table_of v ?d) k' dt' = key_count (table_of v d) k' dt'"
  proof (intro allI impI)
    fix k' dt'
    assume "(k', dt') \<noteq> (k, dt)"
    then have "key_count ?tbl k' dt' = key_count (table_of v d) k' dt'"
      by (rule upserted_count(2))
    then show "key_count (table_of v ?d) k' dt' = key_count (table_of v d) k' dt'"
      by (simp only: tbl)
  qed
  from up rows has shows_code len one others show ?thesis by blast
qed

lemma entry_examples:
  "pg_int4 (nurseId (entry_for ''1'' ''M'')) = Inr (Some 1)"
  "pg_int4 (nurseId (entry_for ''9'' ''M'')) = Inr (Some 9)"
  "pg_int4 (nurseId (entry_for ''x'' ''M'')) = Inl (BadInteger ''x'')"
  by code_simp+

theorem upsert_round_trip_witness:
  "pg_int4 (nurseId (entry_for ''1'' ''M'')) = Inr (Some 1)
   \<and> 1 \<in> nurse_id ` set (Nurses ann_db)
   \<and> truthy (JStr ''2025-07-01'') \<and> pg_text (JStr ''2025-07-01'') = Some ''2025-07-01''
   \<and> ''2025-07-01'' \<noteq> []
   \<and> (\<exists>d' rows.
         upsertAssignments Planned (JStr ''2025-07-01'') (Some [entry_for ''1'' ''M'']) ann_db =
           (Inr (success_text Planned), d')
       \<and> getRosterForDate (\<lambda>a b. True) (Some ''2025-07-01'') d' = Inr rows
       \<and> (\<exists>row \<in> set rows. view_nurse_id row = 1)
       \<and> (\<forall>row \<in> set rows. view_nurse_id row = 1 \<longrightarrow>
             view_shift Planned row = Some ''M'' \<and> view_ward Planned row = Some ''ICU'')
       \<and> key_count (table_of Planned d') 1 ''2025-07-01'' = 1)"
proof -
  have h1: "pg_int4 (nurseId (entry_for ''1'' ''M'')) = Inr (Some 1)" by (rule entry_examples)
  have h2: "1 \<in> nurse_id ` set (Nurses ann_db)" by (simp add: ann_db_def nurse_ann_def)
  have h3: "truthy (JStr ''2025-07-01'')" by simp
  have h4: "pg_text (JStr ''2025-07-01'') = Some ''2025-07-01''" by simp
  have h5: "''2025-07-01'' \<noteq> []" by simp
  have zero: "key_count (table_of Planned ann_db) 1 ''2025-07-01'' \<le> 1"
    by (simp add: key_count_def table_of_def ann_db_def)
  from upsert_round_trip [OF h1 h2 h3 h4 h5, of Planned "\<lambda>a b. True"] zero
  have "\<exists>d' rows.
         upsertAssignments Planned (JStr ''2025-07-01'') (Some [entry_for ''1'' ''M'']) ann_db =
           (Inr (success_text Planned), d')
       \<and> getRosterForDate (\<lambda>a b. True) (Some ''2025-07-01'') d' = Inr rows
       \<and> (\<exists>row \<in> set rows. view_nurse_id row = 1)
       \<and> (\<forall>row \<in> set rows. view_nurse_id row = 1 \<longrightarrow>
             view_shift Planned row = Some ''M'' \<and> view_ward Planned row = Some ''ICU'')
       \<and> key_count (table_of Planned d') 1 ''2025-07-01'' = 1"
    by (simp add: entry_for_def) blast
  with h1 h2 h3 h4 h5 show ?thesis by blast
qed

subsection \<open>A batch with a failing entry\<close>

text \<open>
  C7. When the statement of some entry of a batch fails, in whatever order the statements
  are executed: the answer is status 500 with the text of the variant and, as details,
  the error of the first statement that failed; the database holds the effect of every
  entry whose statement does not fail, those before and those after the failing one: it
  is the database that the batch of these entries alone leaves, and that batch succeeds.
  Nothing is rolled back, and no entry depends on another.
\<close>

theorem batch_failure:
  assumes "truthy dv" and "\<exists>x \<in> set xs. entry_error (Nurses d) x \<noteq> None"
  shows "\<exists>x err. find (\<lambda>x. entry_error (Nurses d) x \<noteq> None) xs = Some x
      \<and> entry_error (Nurses d) x = Some err
      \<and> fst (upsertAssignments v dv (Some xs) d) = Inl (Http500_details (failure_text v) err)
      \<and> snd (upsertAssignments v dv (Some xs) d) =
          snd (upsertAssignments v dv (Some (filter (entry_ok (Nurses d)) xs)) d)
      \<and> fst (upsertAssignments v dv (Some (filter (entry_ok (Nurses d)) xs)) d) =
          Inr (success_text v)"
proof -
  let ?ok = "filter (entry_ok (Nurses d)) xs"
  from batch_result [OF assms(1), of "(d, [])" "Nurses d" v xs]
  have run: "foldl (exec_entry v dv) (d, []) xs =
       (fst (foldl (exec_entry v dv) (d, []) ?ok), List.map_filter (entry_error (Nurses d)) xs)"
    and clean: "snd (foldl (exec_entry v dv) (d, []) ?ok) = []"
    by simp_all
  from first_error [OF assms(2)] obtain x err rest where
    x: "find (\<lambda>x. entry_error (Nurses d) x \<noteq> None) xs = Some x"
    and err: "entry_error (Nurses d) x = Some err"
    and errs: "List.map_filter (entry_error (Nurses d)) xs = err # rest" by blast
  have "fst (upsertAssignments v dv (Some xs) d) = Inl (Http500_details (failure_text v) err)"
    using assms(1) run errs by (simp add: upsertAssignments_def)
  moreover have "snd (upsertAssignments v dv (Some xs) d) = fst (foldl (exec_entry v dv) (d, []) ?ok)"
    using assms(1) run errs by (simp add: upsertAssignments_def)
  moreover have "upsertAssignments v dv (Some ?ok) d =
      (Inr (success_text v), fst (foldl (exec_entry v dv) (d, []) ?ok))"
    using assms(1) clean by (simp add: upsertAssignments_def Let_def)
  ultimately show ?thesis using x err by auto
qed

theorem batch_failure_witness:
  "truthy (JStr ''2025-07-01'')
   \<and> entry_error (Nurses ann_db) (entry_for ''9'' ''M'') = Some (ForeignKeyViolation 9)
   \<and> upsertAssignments Planned (JStr ''2025-07-01'')
        (Some [entry_for ''1'' ''M'', entry_for ''9'' ''M'', entry_for ''1'' ''N'']) ann_db =
       (Inl (Http500_details ''Failed to update planned roster'' (ForeignKeyViolation 9)),
        ann_db\<lparr>Roster_Planned :=
                 [\<lparr>row_nurse_id = Some 1, date = ''2025-07-01'', shift_code = Some ''N'',
                   ward = Some ''ICU''\<rparr>]\<rparr>)
   \<and> snd (upsertAssignments Planned (JStr ''2025-07-01'')
        (Some [entry_for ''1'' ''M'', entry_for ''9'' ''M'', entry_for ''1'' ''N'']) ann_db) =
       snd (upsertAssignments Planned (JStr ''2025-07-01'')
        (Some (filter (entry_ok (Nurses ann_db))
           [entry_for ''1'' ''M'', entry_for ''9'' ''M'', entry_for ''1'' ''N''])) ann_db)"
proof -
  have h1: "truthy (JStr ''2025-07-01'')" by simp
  have e9: "entry_error (Nurses ann_db) (entry_for ''9'' ''M'') = Some (ForeignKeyViolation 9)"
    by code_simp
  then have h2: "\<exists>x \<in> set [entry_for ''1'' ''M'', entry_for ''9'' ''M'', entry_for ''1'' ''N''].
      entry_error (Nurses ann_db) x \<noteq> None"
    by simp
  have run: "upsertAssignments Planned (JStr ''2025-07-01'')
        (Some [entry_for ''1'' ''M'', entry_for ''9'' ''M'', entry_for ''1'' ''N'']) ann_db =
       (Inl (Http500_details ''Failed to update planned roster'' (ForeignKeyViolation 9)),
        ann_db\<lparr>Roster_Planned :=
                 [\<lparr>row_nurse_id = Some 1, date = ''2025-07-01'', shift_code = Some ''N'',
                   ward = Some ''ICU''\<rparr>]\<rparr>)"
    by code_simp
  from batch_failure [OF h1 h2, of Planned]
  have "snd (upsertAssignments Planned (JStr ''2025-07-01'')
        (Some [entry_for ''1'' ''M'', entry_for ''9'' ''M'', entry_for ''1'' ''N'']) ann_db) =
       snd (upsertAssignments Planned (JStr ''2025-07-01'')
        (Some (filter (entry_ok (Nurses ann_db))
           [entry_for ''1'' ''M'', entry_for ''9'' ''M'', entry_for ''1'' ''N''])) ann_db)"
    by blast
  with h1 e9 run show ?thesis by blast
qed

section \<open>Rows with an empty shift code\<close>

lemma day_of_examples:
  "day_of_date ''2025-07-01'' = Some 1" "day_of_date ''2025-07-02'' = Some 2"
  "day_of_date ''2025-07-1'' = Some 1" "day_of_date ''20250701'' = None"
  by code_simp+

lemma blank_code_date_marked:
  assumes cast: "\<forall>s. tm s \<noteq> None \<longrightarrow> s \<noteq> [] \<and> s \<notin> set object_prototype_keys"
    and ok: "\<forall>x \<in> set (Roster_Planned d) \<union> set (Roster_Actual d). tm (date x) \<noteq> None"
    and m: "m \<noteq> []" and r: "tm (date r) = Some m"
  shows "(r \<in> set (Roster_Planned d) \<longrightarrow>
            (\<exists>s. status_of (getStatusMap tm (Some m) d) (date r) = Some s \<and> has_planned s))
       \<and> (r \<in> set (Roster_Actual d) \<longrightarrow>
            (\<exists>s. status_of (getStatusMap tm (Some m) d) (date r) = Some s \<and> has_actual s))"
proof -
  from cast have cast': "\<And>s. tm s \<noteq> None \<Longrightarrow> s \<noteq> [] \<and> s \<notin> set object_prototype_keys"
    by blast
  have p: "r \<in> set (Roster_Planned d) \<Longrightarrow> date r \<in> dates_in tm (Roster_Planned d) m"
    using r by (auto simp: dates_in_def)
  have a: "r \<in> set (Roster_Actual d) \<Longrightarrow> date r \<in> dates_in tm (Roster_Actual d) m"
    using r by (auto simp: dates_in_def)
  note eq = status_map_formula [OF cast' ok m]
  show ?thesis
    using p a by (simp add: eq status_of_def)
qed

text \<open>
  C2, as the code has it. A fetched row whose shift code is the empty string changes
  nothing in the report: the report is the one built without the row, for a planned row
  and for an actual row, when no row fetched before it in the same list addresses the
  same nurse and day. The status map does not look at the shift code: when the date cast
  accepts the stored dates, the date of such a row is marked as planned, or as actual,
  as the date of any other row of the month is.
\<close>

theorem empty_code_row:
  assumes "shift_code r = Some []"
  shows "((\<forall>x \<in> set xs. \<forall>k d. targets r k d \<longrightarrow> \<not> targets x k d) \<longrightarrow>
            build_report dim ns (xs @ r # ys) A = build_report dim ns (xs @ ys) A
          \<and> build_report dim ns P (xs @ r # ys) = build_report dim ns P (xs @ ys))
     \<and> ((\<forall>s. tm s \<noteq> None \<longrightarrow> s \<noteq> [] \<and> s \<notin> set object_prototype_keys)
          \<and> (\<forall>x \<in> set (Roster_Planned db) \<union> set (Roster_Actual db). tm (date x) \<noteq> None)
          \<and> m \<noteq> [] \<and> tm (date r) = Some m \<longrightarrow>
            (r \<in> set (Roster_Planned db) \<longrightarrow>
               (\<exists>s. status_of (getStatusMap tm (Some m) db) (date r) = Some s \<and> has_planned s))
          \<and> (r \<in> set (Roster_Actual db) \<longrightarrow>
               (\<exists>s. status_of (getStatusMap tm (Some m) db) (date r) = Some s \<and> has_actual s)))"
proof (intro conjI impI)
  assume before: "\<forall>x \<in> set xs. \<forall>k d. targets r k d \<longrightarrow> \<not> targets x k d"
  show "build_report dim ns (xs @ r # ys) A = build_report dim ns (xs @ ys) A"
    using assms before by (rule build_report_drop_planned)
  show "build_report dim ns P (xs @ r # ys) = build_report dim ns P (xs @ ys)"
    using assms before by (rule build_report_drop_actual)
next
  assume h: "(\<forall>s. tm s \<noteq> None \<longrightarrow> s \<noteq> [] \<and> s \<notin> set object_prototype_keys)
          \<and> (\<forall>x \<in> set (Roster_Planned db) \<union> set (Roster_Actual db). tm (date x) \<noteq> None)
          \<and> m \<noteq> [] \<and> tm (date r) = Some m"
    and "r \<in> set (Roster_Planned db)"
  with blank_code_date_marked [of tm db m r]
  show "\<exists>s. status_of (getStatusMap tm (Some m) db) (date r) = Some s \<and> has_planned s"
    by blast
next
  assume h: "(\<forall>s. tm s \<noteq> None \<longrightarrow> s \<noteq> [] \<and> s \<notin> set object_prototype_keys)
          \<and> (\<forall>x \<in> set (Roster_Planned db) \<union> set (Roster_Actual db). tm (date x) \<noteq> None)
          \<and> m \<noteq> [] \<and> tm (date r) = Some m"
    and "r \<in> set (Roster_Actual db)"
  with blank_code_date_marked [of tm db m r]
  show "\<exists>s. status_of (getStatusMap tm (Some m) db) (date r) = Some s \<and> has_actual s"
    by blast
qed

theorem empty_code_row_witness:
  "shift_code (row_for 1 ''2025-07-02'' []) = Some []
   \<and> day_of_date (date (row_for 1 ''2025-07-02'' [])) \<noteq> day_of_date (date (row_for 1 ''2025-07-01'' ''M''))
   \<and> build_report 31 [nurse_ann] ([row_for 1 ''2025-07-01'' ''M''] @ row_for 1 ''2025-07-02'' [] # []) [] =
       build_report 31 [nurse_ann] ([row_for 1 ''2025-07-01'' ''M''] @ []) []
   \<and> build_report 31 [nurse_ann] [] ([row_for 1 ''2025-07-01'' ''M''] @ row_for 1 ''2025-07-02'' [] # []) =
       build_report 31 [nurse_ann] [] ([row_for 1 ''2025-07-01'' ''M''] @ [])
   \<and> iso_month (date (row_for 1 ''2025-07-02'' [])) = Some ''2025-07''
   \<and> row_for 1 ''2025-07-02'' [] \<in> set (Roster_Planned (ann_db\<lparr>Roster_Planned := [row_for 1 ''2025-07-02'' []]\<rparr>))
   \<and> (\<exists>s. status_of (getStatusMap iso_month (Some ''2025-07'')
                (ann_db\<lparr>Roster_Planned := [row_for 1 ''2025-07-02'' []]\<rparr>))
              (date (row_for 1 ''2025-07-02'' [])) = Some s \<and> has_planned s)"
proof -
  let ?r = "row_for 1 ''2025-07-02'' []"
  let ?d = "ann_db\<lparr>Roster_Planned := [?r]\<rparr>"
  have h1: "shift_code ?r = Some []"
    by (simp add: row_for_def)
  have h2: "day_of_date (date ?r) \<noteq> day_of_date (date (row_for 1 ''2025-07-01'' ''M''))"
    by (simp add: row_for_def day_of_examples)
  then have h3: "\<forall>x \<in> set [row_for 1 ''2025-07-01'' ''M'']. \<forall>k d. targets ?r k d \<longrightarrow> \<not> targets x k d"
    by (auto simp: targets_def)
  have cast: "\<forall>s. iso_month s \<noteq> None \<longrightarrow> s \<noteq> [] \<and> s \<notin> set object_prototype_keys"
    using iso_month_plain by blast
  have h4: "iso_month (date ?r) = Some ''2025-07''"
    by (simp add: row_for_def iso_month_examples)
  then have ok: "\<forall>x \<in> set (Roster_Planned ?d) \<union> set (Roster_Actual ?d). iso_month (date x) \<noteq> None"
    by (simp add: ann_db_def)
  have m: "''2025-07'' \<noteq> []" by simp
  have h5: "?r \<in> set (Roster_Planned ?d)" by simp
  note inst = empty_code_row [OF h1, of "[row_for 1 ''2025-07-01'' ''M'']" 31 "[nurse_ann]" "[]" "[]" "[]"
      iso_month ?d "''2025-07''"]
  from inst h3 have reports:
    "build_report 31 [nurse_ann] ([row_for 1 ''2025-07-01'' ''M''] @ ?r # []) [] =
       build_report 31 [nurse_ann] ([row_for 1 ''2025-07-01'' ''M''] @ []) []
     \<and> build_report 31 [nurse_ann] [] ([row_for 1 ''2025-07-01'' ''M''] @ ?r # []) =
       build_report 31 [nurse_ann] [] ([row_for 1 ''2025-07-01'' ''M''] @ [])"
    by blast
  from inst cast ok m h4 h5 have marked:
    "\<exists>s. status_of (getStatusMap iso_month (Some ''2025-07'') ?d) (date ?r) = Some s \<and> has_planned s"
    by blast
  from h1 h2 reports h4 h5 marked show ?thesis by blast
qed

text \<open>
  The claim C2 fails for the status map: a planned row with an empty shift code marks its
  date, and without the row the date has no entry. It also fails for the report when two
  rows of one nurse carry the same day in two spellings of the date: the later row, with
  the empty code, wipes the code of the earlier one.
\<close>

theorem empty_code_row_counterexample:
  "shift_code (hd (Roster_Planned blank_code_db)) = Some []
   \<and> status_of (getStatusMap iso_month (Some ''2025-07'') blank_code_db) ''2025-07-01'' =
       Some \<lparr>has_planned = True, has_actual = False\<rparr>
   \<and> status_of (getStatusMap iso_month (Some ''2025-07'') (blank_code_db\<lparr>Roster_Planned := []\<rparr>))
       ''2025-07-01'' = None
   \<and> build_report 31 [nurse_ann] [row_for 1 ''2025-07-01'' ''M'', row_for 1 ''2025-07-1'' []] [] \<noteq>
       build_report 31 [nurse_ann] [row_for 1 ''2025-07-01'' ''M''] []"
  by code_simp

end
